theory Spec2Isabelle
  imports Complex_Main
begin

section \<open>KASBOT.py: the order-lifecycle controller\<close>

text \<open>
  A shallow embedding of \<^verbatim>\<open>src/KASBOT.py\<close>. Conventions of the model:
  \<^item> Python floats are values of \<^typ>\<open>real\<close>, Python ints of \<^typ>\<open>int\<close>. Where
    the branch taken depends on a comparison of computed floats, in the threshold
    of the price-drop trigger (line 451), each operation is rounded to the nearest
    double as IEEE 754 does (\<open>fl\<close> below). The other float computations (profit,
    sell price, buy amount) only produce values that are stored or reported, and
    are written in exact arithmetic.
  \<^item> An order is the five-key dict that \<^verbatim>\<open>create_new_order\<close> builds
    (lines 278-284); every key is present, so \<^verbatim>\<open>x.get('price', float('inf'))\<close>
    is the price and \<^verbatim>\<open>order.get('order_type')\<close> is the role string.
  \<^item> The module globals \<^verbatim>\<open>insufficient_funds_notified\<close> and
    \<^verbatim>\<open>trading_stopped\<close>, the state file and everything the program emits
    live in one record \<open>world\<close> that every function takes and returns.
  \<^item> The exchange is an environment: each function takes the answers the exchange
    gives to the calls it makes. A call wrapped in \<^verbatim>\<open>retry_on_network_error\<close>
    is represented by its final outcome (a value, or an exception that is not a
    \<^verbatim>\<open>NetworkError\<close>); \<^verbatim>\<open>time.sleep\<close> and logging have no effect on the state.
  \<^item> An exception is a value: a function that can raise returns \<open>Raise e\<close> together
    with the world as it is at the raise.
  \<^item> The functions run one after the other: the handler threads, which call
    \<^verbatim>\<open>load_state\<close> while the loop runs, are not interleaved with it.
\<close>

subsection \<open>Double-precision rounding\<close>

text \<open>Rounding to the nearest integer, a tie going to the even one.\<close>

definition round_half_even :: "real \<Rightarrow> int" where
  "round_half_even x =
     (let f = \<lfloor>x\<rfloor>; r = x - of_int f
      in if r < 1 / 2 then f else if 1 / 2 < r then f + 1
         else if even f then f else f + 1)"

text \<open>
  The binary exponent of a positive \<open>x\<close>, the \<open>e\<close> with \<open>2 ^ e \<le> x < 2 ^ (e + 1)\<close>,
  found by doubling or halving \<open>x\<close> at most \<open>n\<close> times.
\<close>

fun binary_exponent :: "nat \<Rightarrow> real \<Rightarrow> int" where
  "binary_exponent 0 x = 0"
| "binary_exponent (Suc n) x =
     (if x < 1 then binary_exponent n (2 * x) - 1
      else if 2 \<le> x then binary_exponent n (x / 2) + 1
      else 0)"

definition pow2 :: "int \<Rightarrow> real" where
  "pow2 k = (if 0 \<le> k then 2 ^ nat k else 1 / 2 ^ nat (- k))"

text \<open>
  The double nearest to \<open>x\<close> (round to nearest, ties to even): 53 significant bits,
  the exponent not below \<open>-1022\<close>, so that small values round on the subnormal
  grid. Overflow to infinity (values from \<open>2 ^ 1024\<close> on) and NaN are not modelled.
  Python's \<^verbatim>\<open>*\<close>, \<^verbatim>\<open>-\<close> and \<^verbatim>\<open>/\<close> on floats return \<open>fl\<close> of the exact result, and a
  decimal literal denotes \<open>fl\<close> of its value.
\<close>

definition fl :: "real \<Rightarrow> real" where
  "fl x =
     (if x = 0 then 0
      else let e = max (binary_exponent 1100 \<bar>x\<bar>) (- 1022);
               ulp = pow2 (e - 52)
           in sgn x * of_int (round_half_even (\<bar>x\<bar> / ulp)) * ulp)"

subsection \<open>Settings (lines 34-38)\<close>

definition profit_percent :: real where
  "profit_percent = 0.5 / 100"

text \<open>\<^verbatim>\<open>drop_percent = 1 / 100\<close>: the double \<^verbatim>\<open>0.01\<close>.\<close>

definition drop_percent :: real where
  "drop_percent = fl (1 / 100)"

definition order_size :: real where
  "order_size = 15"

subsection \<open>Data\<close>

record order =
  order_id :: string
  amount :: real
  price :: real
  buy_price :: real
  order_type :: string

text \<open>
  The JSON object of the state file: \<^verbatim>\<open>load_state\<close> reads each key with a
  default, so each key may be absent. \<open>new_state\<close> is the dict \<^verbatim>\<open>save_state\<close>
  builds (lines 119-124), with all four keys.
\<close>

record state_json =
  j_active_orders :: "order list option"
  j_executed_orders_count :: "int option"
  j_total_profit :: "real option"
  j_trading_stopped :: "bool option"

text \<open>
  What \<^verbatim>\<open>bot_state.json\<close> holds: no file, text that \<^verbatim>\<open>json.load\<close> rejects,
  a JSON value that is not an object, or an object. \<^verbatim>\<open>json.dump\<close> followed by
  \<^verbatim>\<open>json.load\<close> is taken to return the value written.
\<close>

datatype state_file = Missing | Malformed | NotObject | Object state_json

datatype notification =
    NInsufficientBalance real
  | NInsufficientBuy
  | NInsufficientSell
  | NOrderNotFound
  | NBuyError
  | NSellError
  | NBought real real real
  | NSellNotCreated
  | NCheckStarted
  | NCheckFinished
  | NOrderExecuted order real
  | NOrderCanceled string
  | NStopDemoted string
  | NStopNoAutobay
  | NBuyCommandDone

text \<open>
  The trace records, in program order, each \<^verbatim>\<open>save_notification\<close>, each attempt
  to write the state file, and each entry into \<^verbatim>\<open>create_new_order\<close> (with the
  role and the list it receives).
\<close>

datatype event =
    Notify notification
  | FileWrite state_json
  | FileWriteFailed
  | CreateNewOrder string "order list"

text \<open>
  \<open>disk\<close> is the content of the state file. \<open>disk_writable\<close>: opening it for
  writing succeeds; where it does not, the exception is caught and logged (lines
  143-144) and the file stays as it was.
\<close>

record world =
  insufficient_funds_notified :: bool
  trading_stopped :: bool
  disk :: state_file
  disk_writable :: bool
  trace :: "event list"

datatype error = ExchangeError | ZeroDivisionError

datatype 'a result = Raise error | Return 'a

definition save_notification :: "notification \<Rightarrow> world \<Rightarrow> world" where
  "save_notification m w = w\<lparr>trace := trace w @ [Notify m]\<rparr>"

subsection \<open>Saving and loading the state (lines 113-167)\<close>

definition new_state :: "order list \<Rightarrow> int \<Rightarrow> real \<Rightarrow> bool \<Rightarrow> state_json" where
  "new_state active_orders executed_orders_count total_profit stopped =
     \<lparr>j_active_orders = Some active_orders,
      j_executed_orders_count = Some executed_orders_count,
      j_total_profit = Some total_profit,
      j_trading_stopped = Some stopped\<rparr>"

text \<open>
  \<open>current_state\<close> of lines 125-136: the parsed file, and the empty dict \<open>{}\<close> when
  the file is missing or \<^verbatim>\<open>json.load\<close> raises. \<open>None\<close> stands for a parsed value
  that is not an object, which equals no dict.
\<close>

definition empty_object :: state_json where
  "empty_object =
     \<lparr>j_active_orders = None, j_executed_orders_count = None,
      j_total_profit = None, j_trading_stopped = None\<rparr>"

definition current_state :: "state_file \<Rightarrow> state_json option" where
  "current_state f =
     (case f of
        Object s \<Rightarrow> Some s
      | NotObject \<Rightarrow> None
      | Malformed \<Rightarrow> Some empty_object
      | Missing \<Rightarrow> Some empty_object)"

definition save_state :: "order list \<Rightarrow> int \<Rightarrow> real \<Rightarrow> world \<Rightarrow> world" where
  "save_state active_orders executed_orders_count total_profit w =
     (if active_orders = [] \<and> executed_orders_count = 0 \<and> total_profit = 0
         \<and> \<not> trading_stopped w
      then w
      else let ns = new_state active_orders executed_orders_count total_profit
                      (trading_stopped w)
           in if current_state (disk w) = Some ns then w
              else if disk_writable w
                   then w\<lparr>disk := Object ns, trace := trace w @ [FileWrite ns]\<rparr>
                   else w\<lparr>trace := trace w @ [FileWriteFailed]\<rparr>)"

definition load_state :: "world \<Rightarrow> (order list \<times> int \<times> real) \<times> world" where
  "load_state w =
     (case disk w of
        Object s \<Rightarrow>
          ((case j_active_orders s of None \<Rightarrow> [] | Some os \<Rightarrow> os,
            case j_executed_orders_count s of None \<Rightarrow> 0 | Some n \<Rightarrow> n,
            case j_total_profit s of None \<Rightarrow> 0 | Some p \<Rightarrow> p),
           w\<lparr>trading_stopped :=
                (case j_trading_stopped s of None \<Rightarrow> False | Some b \<Rightarrow> b)\<rparr>)
      | Malformed \<Rightarrow> (([], 0, 0), w)
      | NotObject \<Rightarrow> (([], 0, 0), w)
      | Missing \<Rightarrow> (([], 0, 0), w\<lparr>trading_stopped := False\<rparr>))"

subsection \<open>The exchange as seen by one call of \<^verbatim>\<open>create_new_order\<close>\<close>

text \<open>
  One attempt of \<^verbatim>\<open>create_buy_order\<close> or \<^verbatim>\<open>create_sell_order\<close> ends with the
  order placed or with one of the exceptions the \<^verbatim>\<open>try\<close> distinguishes.
\<close>

datatype 'a attempt =
    Done 'a
  | InsufficientFunds
  | RateLimitExceeded
  | OrderNotFound
  | OtherError

text \<open>
  \<open>load_markets_ok\<close>: \<^verbatim>\<open>exchange.load_markets()\<close> returns. \<open>last_price\<close> and
  \<open>free_balance\<close>: what \<^verbatim>\<open>get_current_price\<close> and \<^verbatim>\<open>get_available_balance\<close>
  return, \<open>None\<close> when they raise. \<open>market_buy amount k\<close>: the outcome of attempt \<open>k\<close> of
  the market buy, \<open>Done (bought_amount, actual_price)\<close> on success.
  \<open>limit_sell amount price k\<close>: the outcome of attempt \<open>k\<close> of the limit sell,
  \<open>Done id\<close> on success.
\<close>

record exchange =
  load_markets_ok :: bool
  last_price :: "real option"
  free_balance :: "real option"
  market_buy :: "real \<Rightarrow> nat \<Rightarrow> (real \<times> real) attempt"
  limit_sell :: "real \<Rightarrow> real \<Rightarrow> nat \<Rightarrow> string attempt"

subsection \<open>Creating orders (lines 188-289)\<close>

fun buy_attempts ::
  "(nat \<Rightarrow> (real \<times> real) attempt) \<Rightarrow> nat list \<Rightarrow> world \<Rightarrow> (real \<times> real) option \<times> world"
where
  "buy_attempts ex [] w = (None, w)"
| "buy_attempts ex (attempt # rest) w =
     (case ex attempt of
        Done fill \<Rightarrow> (Some fill, w\<lparr>insufficient_funds_notified := False\<rparr>)
      | InsufficientFunds \<Rightarrow>
          (None,
           if \<not> insufficient_funds_notified w
           then (save_notification NInsufficientBuy w)\<lparr>insufficient_funds_notified := True\<rparr>
           else w)
      | RateLimitExceeded \<Rightarrow> buy_attempts ex rest w
      | OrderNotFound \<Rightarrow> (None, save_notification NOrderNotFound w)
      | OtherError \<Rightarrow> (None, save_notification NBuyError w))"

definition create_buy_order ::
  "exchange \<Rightarrow> real \<Rightarrow> world \<Rightarrow> (real \<times> real) option \<times> world"
where
  "create_buy_order ex amt w = buy_attempts (market_buy ex amt) [0, 1, 2] w"

fun sell_attempts ::
  "(nat \<Rightarrow> string attempt) \<Rightarrow> nat list \<Rightarrow> world \<Rightarrow> string option \<times> world"
where
  "sell_attempts ex [] w = (None, w)"
| "sell_attempts ex (attempt # rest) w =
     (case ex attempt of
        Done sell_id \<Rightarrow> (Some sell_id, w\<lparr>insufficient_funds_notified := False\<rparr>)
      | InsufficientFunds \<Rightarrow>
          (None,
           if \<not> insufficient_funds_notified w
           then (save_notification NInsufficientSell w)\<lparr>insufficient_funds_notified := True\<rparr>
           else w)
      | RateLimitExceeded \<Rightarrow> sell_attempts ex rest w
      | OrderNotFound \<Rightarrow> (None, save_notification NOrderNotFound w)
      | OtherError \<Rightarrow> (None, save_notification NSellError w))"

definition create_sell_order ::
  "exchange \<Rightarrow> real \<Rightarrow> real \<Rightarrow> world \<Rightarrow> string option \<times> world"
where
  "create_sell_order ex amt p w = sell_attempts (limit_sell ex amt p) [0, 1, 2] w"

type_synonym book = "order list \<times> int \<times> real"

text \<open>Lines 263-289: the buy, the notification, the sell and the append.\<close>

definition buy_and_sell ::
  "exchange \<Rightarrow> real \<Rightarrow> order list \<Rightarrow> int \<Rightarrow> real \<Rightarrow> string \<Rightarrow> world
     \<Rightarrow> book result \<times> world"
where
  "buy_and_sell ex current_price active_orders executed_orders_count total_profit role w =
     (if current_price = 0 then (Raise ZeroDivisionError, w)
      else
        case create_buy_order ex (order_size / current_price) w of
          (None, w1) \<Rightarrow> (Return (active_orders, executed_orders_count, total_profit), w1)
        | (Some (bought_amount, actual_buy_price), w1) \<Rightarrow>
            let sell_price = actual_buy_price * (1 + profit_percent);
                w2 = save_notification (NBought bought_amount actual_buy_price sell_price) w1
            in case create_sell_order ex bought_amount sell_price w2 of
                 (Some sell_id, w3) \<Rightarrow>
                   (Return (active_orders @
                              [\<lparr>order_id = sell_id, amount = bought_amount,
                                price = sell_price, buy_price = actual_buy_price,
                                order_type = role\<rparr>],
                            executed_orders_count, total_profit), w3)
               | (None, w3) \<Rightarrow>
                   (Return (active_orders, executed_orders_count, total_profit),
                    save_notification NSellNotCreated w3))"

definition create_new_order ::
  "exchange \<Rightarrow> order list \<Rightarrow> int \<Rightarrow> real \<Rightarrow> string \<Rightarrow> world \<Rightarrow> book result \<times> world"
where
  "create_new_order ex active_orders executed_orders_count total_profit role w =
     (let w0 = w\<lparr>trace := trace w @ [CreateNewOrder role active_orders]\<rparr>
      in if \<not> load_markets_ok ex then (Raise ExchangeError, w0)
         else
           case last_price ex of
             None \<Rightarrow> (Raise ExchangeError, w0)
           | Some current_price \<Rightarrow>
               (case free_balance ex of
                  None \<Rightarrow> (Raise ExchangeError, w0)
                | Some available_balance \<Rightarrow>
                    if available_balance < order_size
                    then (Return (active_orders, executed_orders_count, total_profit),
                          if \<not> insufficient_funds_notified w0
                          then (save_notification (NInsufficientBalance available_balance) w0)
                                 \<lparr>insufficient_funds_notified := True\<rparr>
                          else w0)
                    else buy_and_sell ex current_price active_orders executed_orders_count
                           total_profit role (w0\<lparr>insufficient_funds_notified := False\<rparr>)))"

subsection \<open>Reconciling the active orders (lines 291-399)\<close>

text \<open>
  The outcome of \<^verbatim>\<open>fetch_order_status\<close> for one order: the call raised
  (\<^verbatim>\<open>order_status\<close> is \<^verbatim>\<open>None\<close>), or the exchange reported a status string.
\<close>

datatype poll = PollFailed | Status string

text \<open>
  \<open>executor_ok\<close>: the thread pool returns the results (the \<^verbatim>\<open>try\<close> of lines 305-310
  does not fail). \<open>fetch_order i\<close>: the outcome for the order at position \<open>i\<close> of
  \<^verbatim>\<open>active_orders\<close>. \<open>replenish\<close>: the exchange as seen by the call of
  \<^verbatim>\<open>create_new_order\<close> that \<^verbatim>\<open>check_orders\<close> may make.
\<close>

record check_env =
  executor_ok :: bool
  fetch_order :: "nat \<Rightarrow> poll"
  replenish :: exchange

text \<open>
  The dicts of \<^verbatim>\<open>active_orders\<close> are shared by \<^verbatim>\<open>updated_orders\<close>, and the
  rotation writes \<^verbatim>\<open>order_type\<close> in place. Each dict is therefore tagged with its
  position in \<^verbatim>\<open>active_orders\<close>, so that the writes can be carried back to that
  list where the source returns it after them (line 399).
\<close>

type_synonym tagged = "nat \<times> order"

definition is_autobay :: "order \<Rightarrow> bool" where
  "is_autobay ord = (order_type ord = ''autobay'')"

record partition =
  updated_orders :: "tagged list"
  closed_orders :: "tagged list"
  canceled_orders :: "tagged list"
  autobay_needed :: bool
  flagautobay :: nat

definition empty_partition :: partition where
  "empty_partition =
     \<lparr>updated_orders = [], closed_orders = [], canceled_orders = [],
      autobay_needed = False, flagautobay = 0\<rparr>"

text \<open>The loop of lines 319-334.\<close>

fun classify :: "(tagged \<times> poll) list \<Rightarrow> partition \<Rightarrow> partition" where
  "classify [] acc = acc"
| "classify ((ord, order_status) # rest) acc =
     classify rest
       (case order_status of
          PollFailed \<Rightarrow> acc\<lparr>updated_orders := updated_orders acc @ [ord]\<rparr>
        | Status st \<Rightarrow>
            if st = ''closed''
            then acc\<lparr>closed_orders := closed_orders acc @ [ord],
                     autobay_needed := (autobay_needed acc \<or> is_autobay (snd ord))\<rparr>
            else if st = ''canceled''
            then acc\<lparr>canceled_orders := canceled_orders acc @ [ord],
                     autobay_needed := (autobay_needed acc \<or> is_autobay (snd ord))\<rparr>
            else acc\<lparr>updated_orders := updated_orders acc @ [ord],
                     flagautobay := flagautobay acc + (if is_autobay (snd ord) then 1 else 0)\<rparr>)"

text \<open>The loop of lines 336-354.\<close>

fun settle_closed :: "tagged list \<Rightarrow> int \<Rightarrow> real \<Rightarrow> world \<Rightarrow> (int \<times> real) \<times> world" where
  "settle_closed [] executed_orders_count total_profit w =
     ((executed_orders_count, total_profit), w)"
| "settle_closed (ord # rest) executed_orders_count total_profit w =
     (let buy_cost = buy_price (snd ord) * amount (snd ord);
          sell_revenue = price (snd ord) * amount (snd ord);
          profit = sell_revenue - buy_cost
      in settle_closed rest (executed_orders_count + 1) (total_profit + profit)
           (save_notification (NOrderExecuted (snd ord) profit) w))"

text \<open>The loop of lines 356-358.\<close>

fun notify_canceled :: "tagged list \<Rightarrow> world \<Rightarrow> world" where
  "notify_canceled [] w = w"
| "notify_canceled (ord # rest) w =
     notify_canceled rest (save_notification (NOrderCanceled (order_id (snd ord))) w)"

text \<open>
  The loop of lines 376-382 over the sorted list: the first order carrying
  \<^verbatim>\<open>'autobay'\<close> keeps it, every later one is set to \<^verbatim>\<open>'bay'\<close>.
\<close>

fun demote_later :: "bool \<Rightarrow> tagged list \<Rightarrow> tagged list" where
  "demote_later first_autobay [] = []"
| "demote_later first_autobay (ord # rest) =
     (if is_autobay (snd ord)
      then if first_autobay then ord # demote_later False rest
           else (fst ord, (snd ord)\<lparr>order_type := ''bay''\<rparr>) # demote_later first_autobay rest
      else ord # demote_later first_autobay rest)"

text \<open>
  Lines 369-382. \<^verbatim>\<open>list.sort\<close> is stable and ascending in the key, as
  \<^const>\<open>sort_key\<close> is.
\<close>

definition rotation :: "nat \<Rightarrow> tagged list \<Rightarrow> tagged list" where
  "rotation flag updated =
     (if flag = 0 \<and> updated \<noteq> []
      then case sort_key (\<lambda>x. price (snd x)) updated of
             [] \<Rightarrow> []
           | ord # rest \<Rightarrow> (fst ord, (snd ord)\<lparr>order_type := ''autobay''\<rparr>) # rest
      else if flag > 1
      then demote_later True (sort_key (\<lambda>x. price (snd x)) updated)
      else updated)"

text \<open>
  \<^verbatim>\<open>active_orders\<close> as the handler of line 399 returns it: the list the caller
  passed, each dict as the rotation left it.
\<close>

definition written_back :: "tagged list \<Rightarrow> order list \<Rightarrow> order list" where
  "written_back updated active_orders =
     map (\<lambda>(i, ord). case map_of updated i of None \<Rightarrow> ord | Some ord' \<Rightarrow> ord')
       (enumerate 0 active_orders)"

definition poll_all :: "check_env \<Rightarrow> order list \<Rightarrow> (tagged \<times> poll) list" where
  "poll_all env active_orders =
     map (\<lambda>ord. (ord, fetch_order env (fst ord))) (enumerate 0 active_orders)"

text \<open>The partition the loop of lines 319-334 computes from the polled statuses.\<close>

definition polled :: "check_env \<Rightarrow> order list \<Rightarrow> partition" where
  "polled env active_orders = classify (poll_all env active_orders) empty_partition"

definition check_orders ::
  "check_env \<Rightarrow> order list \<Rightarrow> int \<Rightarrow> real \<Rightarrow> bool \<Rightarrow> world \<Rightarrow> book \<times> world"
where
  "check_orders env active_orders executed_orders_count total_profit initial_check w =
     (let w0 = (if initial_check then save_notification NCheckStarted w else w)
      in if \<not> executor_ok env
         then ((active_orders, executed_orders_count, total_profit), w0)
         else
           let part = polled env active_orders;
               ((count1, profit1), w1) =
                  settle_closed (closed_orders part) executed_orders_count total_profit w0;
               w2 = notify_canceled (canceled_orders part) w1
           in if initial_check \<and> updated_orders part = []
              then if \<not> trading_stopped w2
                   then case create_new_order (replenish env) [] count1 profit1 ''autobay'' w2 of
                          (Return b, w3) \<Rightarrow> (b, w3)
                        | (Raise e, w3) \<Rightarrow> ((active_orders, count1, profit1), w3)
                   else (([], count1, profit1), w2)
              else
                let updated = (if \<not> trading_stopped w2
                               then rotation (flagautobay part) (updated_orders part)
                               else updated_orders part);
                    w3 = save_state (map snd updated) count1 profit1 w2
                in if autobay_needed part \<and> \<not> initial_check \<and> \<not> trading_stopped w3
                   then case create_new_order (replenish env) (map snd updated) count1 profit1
                               ''autobay'' w3 of
                          (Return (orders2, count2, profit2), w4) \<Rightarrow>
                            ((orders2, count2, profit2), save_state orders2 count2 profit2 w4)
                        | (Raise e, w4) \<Rightarrow>
                            ((written_back updated active_orders, count1, profit1), w4)
                   else ((map snd updated, count1, profit1),
                         if initial_check then save_notification NCheckFinished w3 else w3))"

subsection \<open>The controller loop (lines 402-466)\<close>

datatype command = Stop | Start | Buy

text \<open>
  What one iteration of the \<^verbatim>\<open>while True\<close> loop meets: the command in the queue
  (\<open>None\<close> for \<^verbatim>\<open>queue.Empty\<close>), the exchange as seen by the \<^verbatim>\<open>check_orders\<close> of
  a \<^verbatim>\<open>start\<close> command, by the \<^verbatim>\<open>create_new_order\<close> of a \<^verbatim>\<open>buy\<close> command, by
  the \<^verbatim>\<open>check_orders\<close> of line 443, the price and the balance read at lines 450 and
  453 (\<open>None\<close> when the call raises), and the exchange as seen by the
  \<^verbatim>\<open>create_new_order\<close> of line 457.
\<close>

record tick_env =
  queued :: "command option"
  start_check :: check_env
  buy_exchange :: exchange
  tick_check :: check_env
  drop_price :: "real option"
  drop_balance :: "real option"
  drop_exchange :: exchange

text \<open>
  The first order carrying \<^verbatim>\<open>'autobay'\<close> set to \<^verbatim>\<open>'bay'\<close>: the loop with
  \<^verbatim>\<open>break\<close> of lines 417-422, and line 456 applied to the order found at line 449.
\<close>

fun demote_first :: "order list \<Rightarrow> order list" where
  "demote_first [] = []"
| "demote_first (ord # rest) =
     (if is_autobay ord then ord\<lparr>order_type := ''bay''\<rparr> # rest
      else ord # demote_first rest)"

text \<open>Lines 412-441.\<close>

definition handle_command ::
  "tick_env \<Rightarrow> order list \<Rightarrow> int \<Rightarrow> real \<Rightarrow> world \<Rightarrow> book result \<times> world"
where
  "handle_command env active_orders executed_orders_count total_profit w =
     (case queued env of
        None \<Rightarrow> (Return (active_orders, executed_orders_count, total_profit), w)
      | Some Stop \<Rightarrow>
          (let w1 = w\<lparr>trading_stopped := True\<rparr>
           in case find is_autobay active_orders of
                Some ord \<Rightarrow>
                  (let orders1 = demote_first active_orders;
                       w2 = save_state orders1 executed_orders_count total_profit w1;
                       w3 = save_notification (NStopDemoted (order_id ord)) w2
                   in (Return (orders1, executed_orders_count, total_profit),
                       save_state orders1 executed_orders_count total_profit w3))
              | None \<Rightarrow>
                  (Return (active_orders, executed_orders_count, total_profit),
                   save_state active_orders executed_orders_count total_profit
                     (save_notification NStopNoAutobay w1)))
      | Some Start \<Rightarrow>
          (let w1 = w\<lparr>trading_stopped := False, insufficient_funds_notified := False\<rparr>;
               ((orders1, count1, profit1), w2) =
                  check_orders (start_check env) active_orders executed_orders_count
                    total_profit True w1
           in (Return (orders1, count1, profit1), save_state orders1 count1 profit1 w2))
      | Some Buy \<Rightarrow>
          (case create_new_order (buy_exchange env) active_orders executed_orders_count
                  total_profit ''bay'' w of
             (Raise e, w1) \<Rightarrow> (Raise e, w1)
           | (Return (orders1, count1, profit1), w1) \<Rightarrow>
               (Return (orders1, count1, profit1),
                save_notification NBuyCommandDone (save_state orders1 count1 profit1 w1))))"

text \<open>Lines 443-447: reconcile, sort by price, persist.\<close>

definition reconcile ::
  "tick_env \<Rightarrow> order list \<Rightarrow> int \<Rightarrow> real \<Rightarrow> world \<Rightarrow> book \<times> world"
where
  "reconcile env active_orders executed_orders_count total_profit w =
     (let ((orders1, count1, profit1), w1) =
            check_orders (tick_check env) active_orders executed_orders_count
              total_profit False w;
          orders2 = sort_key price orders1
      in ((orders2, count1, profit1), save_state orders2 count1 profit1 w1))"

text \<open>
  Lines 449-466: the price-drop trigger. The threshold of line 451,
  \<^verbatim>\<open>autobay_order['buy_price'] * (1 - drop_percent)\<close>, is a float subtraction
  followed by a float multiplication.
\<close>

definition price_drop ::
  "tick_env \<Rightarrow> order list \<Rightarrow> int \<Rightarrow> real \<Rightarrow> world \<Rightarrow> book result \<times> world"
where
  "price_drop env active_orders executed_orders_count total_profit w =
     (let autobay_order = find is_autobay active_orders
      in case drop_price env of
           None \<Rightarrow> (Raise ExchangeError, w)
         | Some current_price \<Rightarrow>
             if (case autobay_order of
                   None \<Rightarrow> False
                 | Some ord \<Rightarrow>
                     current_price \<le> fl (buy_price ord * fl (1 - drop_percent)))
                \<and> \<not> trading_stopped w
             then case drop_balance env of
                    None \<Rightarrow> (Raise ExchangeError, w)
                  | Some available_balance \<Rightarrow>
                      if available_balance \<ge> order_size
                      then case create_new_order (drop_exchange env)
                                  (demote_first active_orders) executed_orders_count
                                  total_profit ''autobay'' w of
                             (Raise e, w1) \<Rightarrow> (Raise e, w1)
                           | (Return (orders1, count1, profit1), w1) \<Rightarrow>
                               (Return (orders1, count1, profit1),
                                save_state orders1 count1 profit1 w1)
                      else (Return (active_orders, executed_orders_count, total_profit),
                            if \<not> insufficient_funds_notified w
                            then (save_notification (NInsufficientBalance available_balance) w)
                                   \<lparr>insufficient_funds_notified := True\<rparr>
                            else w)
             else (Return (active_orders, executed_orders_count, total_profit), w))"

text \<open>One iteration of the loop; an exception that nothing catches ends the thread.\<close>

definition tick ::
  "tick_env \<Rightarrow> order list \<Rightarrow> int \<Rightarrow> real \<Rightarrow> world \<Rightarrow> book result \<times> world"
where
  "tick env active_orders executed_orders_count total_profit w =
     (case handle_command env active_orders executed_orders_count total_profit w of
        (Raise e, w1) \<Rightarrow> (Raise e, w1)
      | (Return (orders1, count1, profit1), w1) \<Rightarrow>
          (let ((orders2, count2, profit2), w2) = reconcile env orders1 count1 profit1 w1
           in price_drop env orders2 count2 profit2 w2))"

text \<open>
  The loop over the iterations that a finite list of environments describes: the
  book and the world after them, or the exception that ended the thread.
\<close>

fun ticks :: "tick_env list \<Rightarrow> book \<Rightarrow> world \<Rightarrow> book result \<times> world" where
  "ticks [] b w = (Return b, w)"
| "ticks (env # envs) (active_orders, executed_orders_count, total_profit) w =
     (case tick env active_orders executed_orders_count total_profit w of
        (Raise e, w1) \<Rightarrow> (Raise e, w1)
      | (Return b1, w1) \<Rightarrow> ticks envs b1 w1)"

text \<open>Lines 405-409 followed by the loop.\<close>

definition run_bot :: "check_env \<Rightarrow> tick_env list \<Rightarrow> world \<Rightarrow> book result \<times> world" where
  "run_bot startup envs w =
     (let ((orders0, count0, profit0), w0) = load_state w;
          ((orders1, count1, profit1), w1) = check_orders startup orders0 count0 profit0 True w0
      in ticks envs (orders1, count1, profit1) (save_state orders1 count1 profit1 w1))"

subsection \<open>Observations\<close>

text \<open>
  The still-open set of one reconciliation pass (\<^verbatim>\<open>updated_orders\<close> after the loop
  of lines 319-334) and the same set after the rotation of lines 369-382, which
  \<^verbatim>\<open>check_orders\<close> applies when trading is enabled.
\<close>

definition survivors :: "check_env \<Rightarrow> order list \<Rightarrow> order list" where
  "survivors env active_orders = map snd (updated_orders (polled env active_orders))"

definition after_rotation :: "check_env \<Rightarrow> order list \<Rightarrow> order list" where
  "after_rotation env active_orders =
     map snd (rotation (flagautobay (polled env active_orders))
                (updated_orders (polled env active_orders)))"

text \<open>A status other than \<^verbatim>\<open>'closed'\<close> and \<^verbatim>\<open>'canceled'\<close>, or a failed poll: the order stays.\<close>

definition still_open :: "poll \<Rightarrow> bool" where
  "still_open st = (st \<noteq> Status ''closed'' \<and> st \<noteq> Status ''canceled'')"

text \<open>The positions of \<^verbatim>\<open>active_orders\<close> whose status is reported closed.\<close>

definition closed_positions :: "check_env \<Rightarrow> order list \<Rightarrow> nat list" where
  "closed_positions env active_orders =
     filter (\<lambda>i. fetch_order env i = Status ''closed'') [0..<length active_orders]"

text \<open>The profit of an order once closed (lines 337-339, in exact arithmetic).\<close>

definition profit_of :: "order \<Rightarrow> real" where
  "profit_of ord = (price ord - buy_price ord) * amount ord"

text \<open>
  Two orders are the same up to the role: \<^verbatim>\<open>order_type\<close> is the only key the program
  ever rewrites. \<open>ident\<close> pairs these keys with the position of the dict.
\<close>

definition same_order :: "order \<Rightarrow> order \<Rightarrow> bool" where
  "same_order x y \<longleftrightarrow>
     order_id x = order_id y \<and> amount x = amount y \<and> price x = price y
     \<and> buy_price x = buy_price y"

definition ident :: "tagged \<Rightarrow> nat \<times> string \<times> real \<times> real \<times> real" where
  "ident x = (fst x, order_id (snd x), amount (snd x), price (snd x), buy_price (snd x))"

text \<open>Entries into \<^verbatim>\<open>create_new_order\<close> in a trace.\<close>

fun is_creation :: "event \<Rightarrow> bool" where
  "is_creation (CreateNewOrder role active_orders) = True"
| "is_creation ev = False"

definition creations :: "world \<Rightarrow> event list" where
  "creations w = filter is_creation (trace w)"

text \<open>
  The notification of lines 256-258 and 463-465 (balance below the order size), and
  how often it was emitted.
\<close>

fun is_balance_notice :: "event \<Rightarrow> bool" where
  "is_balance_notice (Notify (NInsufficientBalance available_balance)) = True"
| "is_balance_notice ev = False"

definition balance_notices :: "world \<Rightarrow> nat" where
  "balance_notices w = length (filter is_balance_notice (trace w))"

text \<open>1 while the edge flag is clear, that is, while a notification can still be emitted.\<close>

definition armed :: "world \<Rightarrow> nat" where
  "armed w = (if insufficient_funds_notified w then 0 else 1)"



text \<open>
  From world \<open>w\<close> to world \<open>w'\<close> the balance notification was emitted only by
  consuming the armed edge flag: the count and the flag together are conserved, and
  the count did not drop.
\<close>

definition edge_step :: "world \<Rightarrow> world \<Rightarrow> bool" where
  "edge_step w w' \<longleftrightarrow>
     balance_notices w' + armed w' = balance_notices w + armed w
     \<and> balance_notices w \<le> balance_notices w'"

subsection \<open>Sample data\<close>

text \<open>Concrete orders and worlds on which the properties below are evaluated.\<close>

definition order_a :: order where
  "order_a = \<lparr>order_id = ''a'', amount = 200, price = 0.07035, buy_price = 0.07,
               order_type = ''autobay''\<rparr>"

definition order_b :: order where
  "order_b = \<lparr>order_id = ''b'', amount = 100, price = 0.06, buy_price = 0.0597,
               order_type = ''bay''\<rparr>"

definition order_c :: order where
  "order_c = \<lparr>order_id = ''c'', amount = 150, price = 0.0804, buy_price = 0.08,
               order_type = ''autobay''\<rparr>"

text \<open>The order that a buy on \<open>exchange_plenty\<close> (below) adds to the book.\<close>

definition order_s :: order where
  "order_s = \<lparr>order_id = ''s'', amount = 250, price = 0.0603, buy_price = 0.06,
               order_type = ''bay''\<rparr>"

text \<open>The closed order of the example: bought at 0.069, sold at 0.06935, 217.39 units.\<close>

definition order_e :: order where
  "order_e = \<lparr>order_id = ''e'', amount = 217.39, price = 0.06935, buy_price = 0.069,
               order_type = ''bay''\<rparr>"

text \<open>The module as imported (lines 44-45), no state file yet.\<close>

definition world0 :: world where
  "world0 = \<lparr>insufficient_funds_notified = False, trading_stopped = False,
              disk = Missing, disk_writable = True, trace = []\<rparr>"

text \<open>The same with a state file holding one order and one executed order.\<close>

definition world_stored :: world where
  "world_stored = world0\<lparr>disk := Object (new_state [order_a] 1 0.08 False)\<rparr>"

text \<open>
  Exchanges: one with funds, on which every call succeeds and the market buy fills
  at 0.06; one whose free balance, 10, is below the order size; one whose
  \<^verbatim>\<open>load_markets\<close> raises.
\<close>

definition exchange_plenty :: exchange where
  "exchange_plenty =
     \<lparr>load_markets_ok = True, last_price = Some 0.06, free_balance = Some 100,
      market_buy = (\<lambda>amt k. Done (amt, 0.06)),
      limit_sell = (\<lambda>amt p k. Done ''s'')\<rparr>"

definition exchange_poor :: exchange where
  "exchange_poor = exchange_plenty\<lparr>free_balance := Some 10\<rparr>"

definition exchange_down :: exchange where
  "exchange_down = exchange_plenty\<lparr>load_markets_ok := False\<rparr>"

text \<open>A reconciliation pass in which every order is reported open.\<close>

definition check_open :: check_env where
  "check_open = \<lparr>executor_ok = True, fetch_order = (\<lambda>i. Status ''open''),
                 replenish = exchange_poor\<rparr>"

text \<open>
  Passes in which the poll of the order at position 1 fails, and in which every
  order is reported closed.
\<close>

definition check_second_failed :: check_env where
  "check_second_failed =
     check_open\<lparr>fetch_order := (\<lambda>i. if i = 1 then PollFailed else Status ''open'')\<rparr>"

definition check_closed :: check_env where
  "check_closed = check_open\<lparr>fetch_order := (\<lambda>i. Status ''closed'')\<rparr>"

text \<open>
  Passes in which every order is reported canceled, or closed, while
  \<^verbatim>\<open>load_markets\<close> raises in the replenishment that follows.
\<close>

definition check_canceled_down :: check_env where
  "check_canceled_down =
     \<lparr>executor_ok = True, fetch_order = (\<lambda>i. Status ''canceled''), replenish = exchange_down\<rparr>"

definition check_closed_down :: check_env where
  "check_closed_down =
     \<lparr>executor_ok = True, fetch_order = (\<lambda>i. Status ''closed''), replenish = exchange_down\<rparr>"

text \<open>
  An iteration with no command, every order open, and the given price and balance
  read by the price-drop trigger.
\<close>

definition drop_env :: "real \<Rightarrow> real \<Rightarrow> tick_env" where
  "drop_env current_price available_balance =
     \<lparr>queued = None, start_check = check_open, buy_exchange = exchange_poor,
      tick_check = check_open, drop_price = Some current_price,
      drop_balance = Some available_balance, drop_exchange = exchange_poor\<rparr>"

text \<open>An iteration with a \<^verbatim>\<open>buy\<close> command, on the exchange with funds.\<close>

definition buy_env :: tick_env where
  "buy_env = (drop_env 0.07 100)\<lparr>queued := Some Buy, buy_exchange := exchange_plenty\<rparr>"

text \<open>
  Orders whose purchase and sale prices are the doubles that the literals \<^verbatim>\<open>0.07\<close>,
  \<^verbatim>\<open>0.07035\<close>, \<^verbatim>\<open>0.08\<close> and \<^verbatim>\<open>0.0804\<close> denote.
\<close>

definition order_d :: order where
  "order_d = \<lparr>order_id = ''d'', amount = 200, price = fl 0.07035, buy_price = fl 0.07,
               order_type = ''autobay''\<rparr>"

definition order_f :: order where
  "order_f = \<lparr>order_id = ''f'', amount = 150, price = fl 0.0804, buy_price = fl 0.08,
               order_type = ''autobay''\<rparr>"

text \<open>
  An iteration with no command, the given price read by the price-drop trigger, a
  balance of 100, and the exchange with funds behind line 457.
\<close>

definition drop_env_plenty :: "real \<Rightarrow> tick_env" where
  "drop_env_plenty current_price =
     (drop_env current_price 100)\<lparr>drop_exchange := exchange_plenty\<rparr>"

section \<open>Properties\<close>

subsection \<open>Evaluating the rounding\<close>

lemma binary_exponent_numeral:
  "binary_exponent (numeral k) x =
     (if x < 1 then binary_exponent (pred_numeral k) (2 * x) - 1
      else if 2 \<le> x then binary_exponent (pred_numeral k) (x / 2) + 1
      else 0)"
  by (simp add: numeral_eq_Suc)

lemmas fl_eval = fl_def binary_exponent_numeral pow2_def round_half_even_def Let_def

lemma drop_percent_value: "drop_percent = 5764607523034235 / 2 ^ 59"
  by (simp add: drop_percent_def fl_eval)

lemma one_minus_drop_percent: "fl (1 - drop_percent) = 4458563631096791 / 2 ^ 52"
  unfolding drop_percent_value by (simp add: fl_eval)

subsection \<open>Saving and loading\<close>

lemma current_state_new_state:
  "current_state f = Some (new_state a n p t) \<longleftrightarrow> f = Object (new_state a n p t)"
  by (cases f) (simp_all add: current_state_def new_state_def empty_object_def)

lemma save_state_trading_stopped [simp]:
  "trading_stopped (save_state a n p w) = trading_stopped w"
  by (simp add: save_state_def Let_def)

lemma save_state_insufficient [simp]:
  "insufficient_funds_notified (save_state a n p w) = insufficient_funds_notified w"
  by (simp add: save_state_def Let_def)

lemma save_state_disk:
  "\<not> (a = [] \<and> n = 0 \<and> p = 0 \<and> \<not> trading_stopped w) \<Longrightarrow> disk_writable w
   \<Longrightarrow> disk (save_state a n p w) = Object (new_state a n p (trading_stopped w))"
  by (auto simp add: save_state_def Let_def current_state_new_state)

lemma load_state_new_state:
  "disk w = Object (new_state a n p t)
   \<Longrightarrow> load_state w = ((a, n, p), w\<lparr>trading_stopped := t\<rparr>)"
  by (simp add: load_state_def new_state_def)

lemma load_state_returns_empty:
  "disk w = Missing \<or> disk w = Malformed \<Longrightarrow> fst (load_state w) = ([], 0, 0)"
  by (auto simp add: load_state_def)

lemma load_state_missing_enables:
  "disk w = Missing \<Longrightarrow> \<not> trading_stopped (snd (load_state w))"
  by (simp add: load_state_def)

text \<open>
  C10. Whatever the state file holds, \<^verbatim>\<open>save_state\<close> called with no active orders,
  executed count 0 and total profit 0 while trading is enabled returns at line 118:
  no write is attempted and the world, the file included, is as before.
\<close>

theorem save_state_empty_noop:
  "\<not> trading_stopped w \<Longrightarrow> save_state [] 0 0 w = w"
  by (simp add: save_state_def)

theorem save_state_empty_noop_witness:
  "\<not> trading_stopped world_stored \<and> save_state [] 0 0 world_stored = world_stored"
  using save_state_empty_noop [of world_stored]
  by (simp add: world_stored_def world0_def)

text \<open>
  C6. Persisting is idempotent. When the file already holds exactly the state built
  from the arguments and the trading flag, \<^verbatim>\<open>save_state\<close> returns at line 138
  without writing; and where the file can be written, a second call with the same
  arguments changes nothing that the first call left.
\<close>

theorem save_state_idempotent:
  "(disk w = Object (new_state active_orders executed_orders_count total_profit
                       (trading_stopped w))
      \<longrightarrow> save_state active_orders executed_orders_count total_profit w = w)
   \<and> (disk_writable w
      \<longrightarrow> save_state active_orders executed_orders_count total_profit
            (save_state active_orders executed_orders_count total_profit w)
          = save_state active_orders executed_orders_count total_profit w)"
  by (simp add: save_state_def current_state_new_state Let_def)

theorem save_state_idempotent_witness:
  "disk world_stored = Object (new_state [order_a] 1 0.08 (trading_stopped world_stored))
   \<and> save_state [order_a] 1 0.08 world_stored = world_stored
   \<and> disk_writable world0
   \<and> save_state [order_a] 1 0.08 (save_state [order_a] 1 0.08 world0)
       = save_state [order_a] 1 0.08 world0
   \<and> trace (save_state [order_a] 1 0.08 world0) = [FileWrite (new_state [order_a] 1 0.08 False)]"
  using save_state_idempotent [where w = world_stored and active_orders = "[order_a]"
      and executed_orders_count = 1 and total_profit = "0.08"]
    save_state_idempotent [where w = world0 and active_orders = "[order_a]"
      and executed_orders_count = 1 and total_profit = "0.08"]
  by (simp add: world_stored_def world0_def save_state_def current_state_def
      empty_object_def new_state_def Let_def)

text \<open>
  C7, as stated, fails. The empty book with trading enabled is never written
  (line 116), so after \<^verbatim>\<open>save_state\<close> the file still holds the older state and
  \<^verbatim>\<open>load_state\<close> returns that one; and a write that fails (line 143) leaves the
  file as it was.
\<close>

theorem save_then_load_counterexample:
  "fst (load_state (save_state [] 0 0 world_stored)) \<noteq> ([], 0, 0)
   \<and> fst (load_state (save_state [order_a] 1 0.08 (world0\<lparr>disk_writable := False\<rparr>)))
       \<noteq> ([order_a], 1, 0.08)"
  by (simp add: save_state_def load_state_def world_stored_def world0_def new_state_def
      current_state_def empty_object_def Let_def)

text \<open>
  C7, amended. For every book other than the empty one with trading enabled, when
  the file can be written, \<^verbatim>\<open>save_state\<close> followed by \<^verbatim>\<open>load_state\<close> returns the
  active orders, the executed count and the total profit that were saved and sets
  \<^verbatim>\<open>trading_stopped\<close> to the saved flag. The empty book with trading enabled is
  not written: loading after it returns what loading before it would.
\<close>

theorem save_then_load:
  "(\<not> (active_orders = [] \<and> executed_orders_count = 0 \<and> total_profit = 0
        \<and> \<not> trading_stopped w) \<and> disk_writable w
      \<longrightarrow> fst (load_state (save_state active_orders executed_orders_count total_profit w))
            = (active_orders, executed_orders_count, total_profit)
          \<and> trading_stopped
              (snd (load_state (save_state active_orders executed_orders_count total_profit w)))
            = trading_stopped w)
   \<and> (\<not> trading_stopped w \<longrightarrow> load_state (save_state [] 0 0 w) = load_state w)"
proof -
  have "fst (load_state (save_state active_orders executed_orders_count total_profit w))
          = (active_orders, executed_orders_count, total_profit)
        \<and> trading_stopped
            (snd (load_state (save_state active_orders executed_orders_count total_profit w)))
          = trading_stopped w"
    if "\<not> (active_orders = [] \<and> executed_orders_count = 0 \<and> total_profit = 0
           \<and> \<not> trading_stopped w)" and "disk_writable w"
    using load_state_new_state [OF save_state_disk [OF that]] by simp
  moreover have "load_state (save_state [] 0 0 w) = load_state w" if "\<not> trading_stopped w"
    using that by (simp add: save_state_def)
  ultimately show ?thesis by blast
qed

theorem save_then_load_witness:
  "\<not> ([order_a, order_b] = [] \<and> (1::int) = 0 \<and> (0.08::real) = 0 \<and> \<not> trading_stopped world0)
   \<and> disk_writable world0
   \<and> fst (load_state (save_state [order_a, order_b] 1 0.08 world0))
       = ([order_a, order_b], 1, 0.08)
   \<and> trading_stopped (snd (load_state (save_state [order_a, order_b] 1 0.08 world0)))
       = trading_stopped world0
   \<and> \<not> trading_stopped world_stored
   \<and> load_state (save_state [] 0 0 world_stored) = load_state world_stored"
  using save_then_load [where w = world0 and active_orders = "[order_a, order_b]"
      and executed_orders_count = 1 and total_profit = "0.08"]
    save_then_load [where w = world_stored]
  by (simp add: world0_def world_stored_def)

text \<open>
  C9. With a missing or an unparseable file \<^verbatim>\<open>load_state\<close> returns no orders and
  zero counters, and for a missing file it sets \<^verbatim>\<open>trading_stopped\<close> to false
  (line 166). For an unparseable file the handlers of lines 159-164 return without
  that assignment: called while trading is stopped, \<^verbatim>\<open>load_state\<close> returns the
  empty book and trading stays stopped.
\<close>

theorem load_state_malformed_keeps_stopped:
  "fst (load_state (world0\<lparr>trading_stopped := True, disk := Malformed\<rparr>)) = ([], 0, 0)
   \<and> trading_stopped (snd (load_state (world0\<lparr>trading_stopped := True, disk := Malformed\<rparr>)))
   \<and> \<not> trading_stopped (snd (load_state (world0\<lparr>trading_stopped := True, disk := Missing\<rparr>)))"
  by (simp add: load_state_def world0_def)

subsection \<open>Entries into \<^verbatim>\<open>create_new_order\<close>\<close>

lemma creations_simps [simp]:
  "creations (save_notification m w) = creations w"
  "creations (save_state a n p w) = creations w"
  "creations (w\<lparr>insufficient_funds_notified := b\<rparr>) = creations w"
  "creations (w\<lparr>trading_stopped := b\<rparr>) = creations w"
  by (simp_all add: creations_def save_notification_def save_state_def Let_def)

lemma creations_buy_attempts:
  "creations (snd (buy_attempts ex ks w)) = creations w"
  by (induction ks arbitrary: w) (simp_all split: attempt.splits)

lemma creations_sell_attempts:
  "creations (snd (sell_attempts ex ks w)) = creations w"
  by (induction ks arbitrary: w) (simp_all split: attempt.splits)

lemma creations_create_buy_order:
  "create_buy_order ex x w = (r, w') \<Longrightarrow> creations w' = creations w"
  using creations_buy_attempts [of "market_buy ex x" "[0, 1, 2]" w]
  unfolding create_buy_order_def by simp

lemma creations_create_sell_order:
  "create_sell_order ex x y w = (r, w') \<Longrightarrow> creations w' = creations w"
  using creations_sell_attempts [of "limit_sell ex x y" "[0, 1, 2]" w]
  unfolding create_sell_order_def by simp

lemma creations_buy_and_sell:
  "buy_and_sell ex cp a n p r w = (res, w') \<Longrightarrow> creations w' = creations w"
  unfolding buy_and_sell_def Let_def
  by (auto split: if_splits prod.splits option.splits
      dest!: creations_create_buy_order creations_create_sell_order)

lemma creations_create_new_order:
  "create_new_order ex a n p r w = (res, w')
   \<Longrightarrow> creations w' = creations w @ [CreateNewOrder r a]"
proof -
  have *: "creations (w\<lparr>trace := trace w @ [CreateNewOrder r a]\<rparr>)
             = creations w @ [CreateNewOrder r a]"
    by (simp add: creations_def)
  have **: "creations (w\<lparr>trace := trace w @ [CreateNewOrder r a],
                         insufficient_funds_notified := b\<rparr>)
              = creations w @ [CreateNewOrder r a]" for b
    by (simp add: creations_def)
  assume "create_new_order ex a n p r w = (res, w')"
  then show ?thesis
    unfolding create_new_order_def Let_def
    by (auto simp add: * ** split: if_splits option.splits dest!: creations_buy_and_sell)
qed

subsection \<open>The insufficient-funds notification\<close>

lemma notices_simps [simp]:
  "balance_notices (save_state a n p w) = balance_notices w"
  "balance_notices (w\<lparr>insufficient_funds_notified := b\<rparr>) = balance_notices w"
  "balance_notices (w\<lparr>trading_stopped := b\<rparr>) = balance_notices w"
  "balance_notices (save_notification m w)
     = balance_notices w + (if is_balance_notice (Notify m) then 1 else 0)"
  "balance_notices (w\<lparr>trace := trace w @ [CreateNewOrder r l]\<rparr>) = balance_notices w"
  by (simp_all add: balance_notices_def save_notification_def save_state_def Let_def)

lemma flag_simps [simp]:
  "insufficient_funds_notified (save_notification m w) = insufficient_funds_notified w"
  "trading_stopped (save_notification m w) = trading_stopped w"
  by (simp_all add: save_notification_def)

lemma armed_simps [simp]:
  "armed (save_state a n p w) = armed w"
  "armed (save_notification m w) = armed w"
  "armed (w\<lparr>trading_stopped := b\<rparr>) = armed w"
  "armed (w\<lparr>trace := t\<rparr>) = armed w"
  "armed (w\<lparr>insufficient_funds_notified := True\<rparr>) = 0"
  "armed (w\<lparr>insufficient_funds_notified := False\<rparr>) = 1"
  by (simp_all add: armed_def)

lemma edge_step_refl [simp]: "edge_step w w"
  by (simp add: edge_step_def)


lemma edge_step_simps [simp]:
  "edge_step w (save_state a n p w') = edge_step w w'"
  "edge_step (save_state a n p w) w' = edge_step w w'"
  "edge_step w (w'\<lparr>trading_stopped := b\<rparr>) = edge_step w w'"
  "edge_step (w\<lparr>trading_stopped := b\<rparr>) w' = edge_step w w'"
  by (simp_all add: edge_step_def)

lemma edge_step_quiet [simp]:
  "\<not> is_balance_notice (Notify m) \<Longrightarrow> edge_step w (save_notification m w') = edge_step w w'"
  "\<not> is_balance_notice (Notify m) \<Longrightarrow> edge_step (save_notification m w) w' = edge_step w w'"
  by (simp_all add: edge_step_def)

lemma settle_closed_quiet:
  "balance_notices (snd (settle_closed cs n p w)) = balance_notices w
   \<and> armed (snd (settle_closed cs n p w)) = armed w
   \<and> trading_stopped (snd (settle_closed cs n p w)) = trading_stopped w"
  by (induction cs arbitrary: n p w) (simp_all add: Let_def)

lemma notify_canceled_quiet:
  "balance_notices (notify_canceled cs w) = balance_notices w
   \<and> armed (notify_canceled cs w) = armed w
   \<and> trading_stopped (notify_canceled cs w) = trading_stopped w"
  by (induction cs arbitrary: w) simp_all

lemma settle_closed_quietD:
  "settle_closed cs n p w = (r, w1)
   \<Longrightarrow> balance_notices w1 = balance_notices w \<and> armed w1 = armed w
       \<and> trading_stopped w1 = trading_stopped w"
  using settle_closed_quiet [of cs n p w] by simp








subsection \<open>Facts about the sample data\<close>

lemma check_open_simps:
  "executor_ok check_open" "replenish check_open = exchange_poor"
  "fetch_order check_open i = Status ''open''"
  by (simp_all add: check_open_def)

lemma order_a_simps:
  "is_autobay order_a" "buy_price order_a = 0.07" "price order_a = 0.07035"
  "order_id order_a = ''a''" "amount order_a = 200"
  by (simp_all add: order_a_def is_autobay_def)


lemma world0_simps:
  "\<not> insufficient_funds_notified world0" "\<not> trading_stopped world0"
  "trace world0 = []" "disk world0 = Missing" "disk_writable world0"
  "balance_notices world0 = 0"
  by (simp_all add: world0_def balance_notices_def)



subsection \<open>The notification is edge-triggered\<close>




subsection \<open>Sorting of the active orders\<close>

lemma create_new_order_plenty:
  "create_new_order exchange_plenty a n p role w =
     (Return (a @ [order_s\<lparr>order_type := role\<rparr>], n, p),
      (save_notification (NBought 250 0.06 0.0603)
         (w\<lparr>trace := trace w @ [CreateNewOrder role a]\<rparr>))
        \<lparr>insufficient_funds_notified := False\<rparr>)"
  by (simp add: create_new_order_def buy_and_sell_def create_buy_order_def
      create_sell_order_def exchange_plenty_def order_size_def profit_percent_def
      order_s_def Let_def save_notification_def)

lemma create_new_order_appends:
  assumes "create_new_order ex a n p role w = (Return (orders1, count1, profit1), w')"
  shows "count1 = n \<and> profit1 = p
         \<and> (orders1 = a
            \<or> (\<exists>sell_id bought_amount actual_buy_price.
                  orders1 = a @ [\<lparr>order_id = sell_id, amount = bought_amount,
                                   price = actual_buy_price * (1 + profit_percent),
                                   buy_price = actual_buy_price, order_type = role\<rparr>]))"
  using assms
  unfolding create_new_order_def buy_and_sell_def Let_def
  by (auto split: if_splits option.splits prod.splits)

lemma order_s_simps:
  "order_s\<lparr>order_type := ''bay''\<rparr> = order_s" "price order_s = 0.0603"
  by (simp_all add: order_s_def)

lemma handle_buy:
  "fst (handle_command buy_env [order_a] 0 0 world0) = Return ([order_a, order_s], 0, 0)"
  by (simp add: handle_command_def buy_env_def drop_env_def create_new_order_plenty
      order_s_simps)

lemma handle_buy_disk:
  "disk (snd (handle_command buy_env [order_a] 0 0 world0))
       = Object (new_state [order_a, order_s] 0 0 False)"
  by (simp add: handle_command_def buy_env_def drop_env_def create_new_order_plenty
      order_s_simps save_state_def Let_def world0_simps current_state_def empty_object_def
      new_state_def save_notification_def)

lemma price_s_a: "price order_s < price order_a"
  by (simp add: order_a_def order_s_def field_simps)

lemma order_s_not_autobay: "\<not> is_autobay order_s"
  by (simp add: order_s_def is_autobay_def)

lemma polled_open_a_s:
  "polled check_open [order_a, order_s] =
     \<lparr>updated_orders = [(0, order_a), (1, order_s)], closed_orders = [],
      canceled_orders = [], autobay_needed = False, flagautobay = 1\<rparr>"
  by (simp add: polled_def poll_all_def check_open_simps empty_partition_def order_a_simps
      order_s_not_autobay)

lemma check_open_a_s:
  "check_orders check_open [order_a, order_s] n p False w =
     (([order_a, order_s], n, p), save_state [order_a, order_s] n p w)"
  by (simp add: check_orders_def polled_open_a_s Let_def rotation_def check_open_simps)

lemma reconcile_a_s:
  "reconcile (drop_env 0.07 100) [order_a, order_s] 0 0 world0
     = (([order_s, order_a], 0, 0),
        save_state [order_s, order_a] 0 0 (save_state [order_a, order_s] 0 0 world0))"
  using price_s_a by (simp add: reconcile_def drop_env_def check_open_a_s Let_def)

text \<open>
  C5, as stated, fails. \<^verbatim>\<open>create_new_order\<close> appends the new order at the end of
  the list (line 278) and nothing sorts the list before the \<^verbatim>\<open>save_state\<close> that
  follows: after a \<^verbatim>\<open>buy\<close> command on a sorted book the list returned and
  persisted (line 438) has the cheaper new order after the dearer old one.
\<close>

theorem sorted_counterexample:
  "sorted (map price [order_a])
   \<and> fst (handle_command buy_env [order_a] 0 0 world0) = Return ([order_a, order_s], 0, 0)
   \<and> disk (snd (handle_command buy_env [order_a] 0 0 world0))
       = Object (new_state [order_a, order_s] 0 0 False)
   \<and> \<not> sorted (map price [order_a, order_s])"
  using price_s_a by (simp add: handle_buy handle_buy_disk)

text \<open>
  C5, amended. The active orders are sorted once per iteration, at line 446: the
  list that \<^verbatim>\<open>check_orders\<close> returned is sorted ascending by price, equal-priced
  orders keeping their relative position, and that sorted list is what line 447
  persists and what the price-drop step receives. \<^verbatim>\<open>create_new_order\<close> returns
  the list it was given, or that list with the new order appended at the end.
\<close>

theorem sorted_once_per_tick:
  "(reconcile env active_orders executed_orders_count total_profit w
      = ((orders2, count2, profit2), w')
    \<longrightarrow> sorted (map price orders2)
        \<and> (\<forall>k. filter (\<lambda>ord. price ord = k) orders2
                 = filter (\<lambda>ord. price ord = k)
                     (fst (fst (check_orders (tick_check env) active_orders
                                  executed_orders_count total_profit False w))))
        \<and> w' = save_state orders2 count2 profit2
                  (snd (check_orders (tick_check env) active_orders
                          executed_orders_count total_profit False w)))
   \<and> (create_new_order ex active_orders executed_orders_count total_profit role w
         = (Return (orders1, count1, profit1), w1)
      \<longrightarrow> orders1 = active_orders
          \<or> (\<exists>sell_id bought_amount actual_buy_price.
                orders1 = active_orders @
                  [\<lparr>order_id = sell_id, amount = bought_amount,
                    price = actual_buy_price * (1 + profit_percent),
                    buy_price = actual_buy_price, order_type = role\<rparr>]))"
proof -
  have "sorted (map price orders2)
        \<and> (\<forall>k. filter (\<lambda>ord. price ord = k) orders2
                 = filter (\<lambda>ord. price ord = k)
                     (fst (fst (check_orders (tick_check env) active_orders
                                  executed_orders_count total_profit False w))))
        \<and> w' = save_state orders2 count2 profit2
                  (snd (check_orders (tick_check env) active_orders
                          executed_orders_count total_profit False w))"
    if "reconcile env active_orders executed_orders_count total_profit w
      = ((orders2, count2, profit2), w')"
    using that
    by (auto simp add: reconcile_def Let_def sort_key_stable split: prod.splits)
  then show ?thesis
    using create_new_order_appends [of ex active_orders executed_orders_count total_profit role w]
    by blast
qed

theorem sorted_once_per_tick_witness:
  "reconcile (drop_env 0.07 100) [order_a, order_s] 0 0 world0
     = (([order_s, order_a], 0, 0),
        save_state [order_s, order_a] 0 0 (save_state [order_a, order_s] 0 0 world0))
   \<and> sorted (map price [order_s, order_a])
   \<and> fst (create_new_order exchange_plenty [order_a] 0 0 ''bay'' world0)
       = Return ([order_a, order_s], 0, 0)
   \<and> (\<exists>sell_id bought_amount actual_buy_price.
          [order_a, order_s] = [order_a] @
             [\<lparr>order_id = sell_id, amount = bought_amount,
               price = actual_buy_price * (1 + profit_percent),
               buy_price = actual_buy_price, order_type = ''bay''\<rparr>])"
proof -
  obtain w1 where c: "create_new_order exchange_plenty [order_a] 0 0 ''bay'' world0
       = (Return ([order_a, order_s], 0, 0), w1)"
    by (simp add: create_new_order_plenty order_s_simps)
  note t = sorted_once_per_tick [where env = "drop_env 0.07 100"
      and active_orders = "[order_a, order_s]" and executed_orders_count = 0
      and total_profit = 0 and w = world0 and ?orders2.0 = "[order_s, order_a]"
      and ?count2.0 = 0 and ?profit2.0 = 0
      and w' = "save_state [order_s, order_a] 0 0 (save_state [order_a, order_s] 0 0 world0)"]
  have s: "sorted (map price [order_s, order_a])"
    using t reconcile_a_s by blast
  note u = sorted_once_per_tick [where ex = exchange_plenty and active_orders = "[order_a]"
      and executed_orders_count = 0 and total_profit = 0 and w = world0 and role = "''bay''"
      and ?orders1.0 = "[order_a, order_s]" and ?count1.0 = 0 and ?profit1.0 = 0 and ?w1.0 = w1]
  have a: "\<exists>sell_id bought_amount actual_buy_price.
          [order_a, order_s] = [order_a] @
             [\<lparr>order_id = sell_id, amount = bought_amount,
               price = actual_buy_price * (1 + profit_percent),
               buy_price = actual_buy_price, order_type = ''bay''\<rparr>]"
    using u c by auto
  show ?thesis using reconcile_a_s s c a by simp
qed

subsection \<open>The partition of a reconciliation pass\<close>

lemma classify_eq:
  "classify rs acc =
     \<lparr>updated_orders = updated_orders acc @ map fst (filter (\<lambda>r. still_open (snd r)) rs),
      closed_orders = closed_orders acc @ map fst (filter (\<lambda>r. snd r = Status ''closed'') rs),
      canceled_orders =
        canceled_orders acc @ map fst (filter (\<lambda>r. snd r = Status ''canceled'') rs),
      autobay_needed =
        (autobay_needed acc
         \<or> (\<exists>r \<in> set rs. \<not> still_open (snd r) \<and> is_autobay (snd (fst r)))),
      flagautobay =
        flagautobay acc
        + length (filter (\<lambda>r. still_open (snd r) \<and> snd r \<noteq> PollFailed
                              \<and> is_autobay (snd (fst r))) rs)\<rparr>"
proof (induction rs arbitrary: acc)
  case Nil
  show ?case by simp
next
  case (Cons r rs)
  obtain ord st where r: "r = (ord, st)" by (cases r)
  show ?case
    unfolding r classify.simps Cons.IH
    by (cases st) (auto simp add: still_open_def)
qed

lemma polled_eq:
  "polled env a =
     \<lparr>updated_orders = filter (\<lambda>x. still_open (fetch_order env (fst x))) (enumerate 0 a),
      closed_orders = filter (\<lambda>x. fetch_order env (fst x) = Status ''closed'') (enumerate 0 a),
      canceled_orders =
        filter (\<lambda>x. fetch_order env (fst x) = Status ''canceled'') (enumerate 0 a),
      autobay_needed =
        (\<exists>x \<in> set (enumerate 0 a). \<not> still_open (fetch_order env (fst x)) \<and> is_autobay (snd x)),
      flagautobay =
        length (filter (\<lambda>x. still_open (fetch_order env (fst x))
                              \<and> fetch_order env (fst x) \<noteq> PollFailed
                              \<and> is_autobay (snd x)) (enumerate 0 a))\<rparr>"
  unfolding polled_def poll_all_def classify_eq
  by (simp add: empty_partition_def filter_map comp_def)


lemma bay_not_autobay [simp]:
  "\<not> is_autobay (ord\<lparr>order_type := ''bay''\<rparr>)"
  "is_autobay (ord\<lparr>order_type := ''autobay''\<rparr>)"
  by (simp_all add: is_autobay_def)

lemma demote_later_False:
  "filter (\<lambda>x. is_autobay (snd x)) (demote_later False xs) = []"
  by (induction xs) simp_all

lemma demote_later_True:
  "filter (\<lambda>x. is_autobay (snd x)) (demote_later True xs)
     = take 1 (filter (\<lambda>x. is_autobay (snd x)) xs)"
  by (induction xs) (simp_all add: demote_later_False)

lemma sorted_head_least:
  "sorted (map f (y # ys)) \<Longrightarrow> z \<in> set (y # ys) \<Longrightarrow> f y \<le> f z"
  by auto

lemma sort_key_Cons_ex:
  "xs \<noteq> [] \<Longrightarrow> \<exists>y ys. sort_key f xs = y # ys"
proof -
  assume "xs \<noteq> []"
  moreover have "length (sort_key f xs) = length xs" by simp
  ultimately have "sort_key f xs \<noteq> []" by (metis length_0_conv)
  then show ?thesis by (cases "sort_key f xs") simp_all
qed

lemma rotation_none:
  fixes U :: "tagged list"
  assumes "U \<noteq> []" and "filter (\<lambda>x. is_autobay (snd x)) U = []"
  shows "\<exists>y \<in> set U.
           filter (\<lambda>x. is_autobay (snd x)) (rotation 0 U)
             = [(fst y, (snd y)\<lparr>order_type := ''autobay''\<rparr>)]
           \<and> (\<forall>z \<in> set U. price (snd y) \<le> price (snd z))"
proof -
  let ?A = "\<lambda>x::tagged. is_autobay (snd x)"
  let ?k = "\<lambda>x::tagged. price (snd x)"
  obtain y ys where S: "sort_key ?k U = y # ys"
    using sort_key_Cons_ex [OF assms(1)] by blast
  have set: "set U = set (y # ys)" using S set_sort [of ?k U] by simp
  have srt: "sorted (map ?k (y # ys))" using S sorted_sort_key [of ?k U] by simp
  have noA: "\<And>z. z \<in> set U \<Longrightarrow> \<not> ?A z"
    using assms(2) by (simp add: filter_empty_conv)
  have ys: "filter ?A ys = []"
    unfolding filter_empty_conv using noA set by simp
  have r: "rotation 0 U = (fst y, (snd y)\<lparr>order_type := ''autobay''\<rparr>) # ys"
    using assms(1) S by (simp add: rotation_def)
  have f: "filter ?A (rotation 0 U) = [(fst y, (snd y)\<lparr>order_type := ''autobay''\<rparr>)]"
    unfolding r using ys by simp
  have least: "\<forall>z \<in> set U. price (snd y) \<le> price (snd z)"
    using sorted_head_least [OF srt] set by blast
  have "y \<in> set U" using set by simp
  then show ?thesis using f least by blast
qed

lemma rotation_one:
  fixes U :: "tagged list"
  assumes "length (filter (\<lambda>x. is_autobay (snd x)) U) = 1"
  shows "\<exists>x \<in> set U. filter (\<lambda>x. is_autobay (snd x)) (rotation 1 U) = [x]
           \<and> is_autobay (snd x)
           \<and> (\<forall>z \<in> set U. is_autobay (snd z) \<longrightarrow> z = x)"
proof -
  let ?A = "\<lambda>x::tagged. is_autobay (snd x)"
  have r: "rotation 1 U = U" by (simp add: rotation_def)
  obtain x where x: "filter ?A U = [x]"
    using assms by (cases "filter ?A U") simp_all
  have mem: "\<And>z. z \<in> set (filter ?A U) \<longleftrightarrow> z = x" unfolding x by simp
  have "x \<in> set U \<and> ?A x" using mem [of x] by simp
  moreover have "\<forall>z \<in> set U. ?A z \<longrightarrow> z = x"
  proof (intro ballI impI)
    fix z assume "z \<in> set U" "?A z"
    then have "z \<in> set (filter ?A U)" by simp
    then show "z = x" unfolding x by simp
  qed
  ultimately show ?thesis unfolding r using x by blast
qed

lemma rotation_many:
  fixes U :: "tagged list"
  assumes "F = length (filter (\<lambda>x. is_autobay (snd x)) U)" and "F > 1"
  shows "\<exists>x \<in> set U. filter (\<lambda>x. is_autobay (snd x)) (rotation F U) = [x]
           \<and> is_autobay (snd x)
           \<and> (\<forall>z \<in> set U. is_autobay (snd z) \<longrightarrow> price (snd x) \<le> price (snd z))"
proof -
  let ?A = "\<lambda>x::tagged. is_autobay (snd x)"
  let ?k = "\<lambda>x::tagged. price (snd x)"
  have r: "rotation F U = demote_later True (sort_key ?k U)"
    using assms(2) by (simp add: rotation_def)
  have fs: "filter ?A (sort_key ?k U) = sort_key ?k (filter ?A U)"
    by (rule filter_sort)
  have "filter ?A U \<noteq> []" using assms by (metis length_0_conv less_nat_zero_code)
  then obtain x xs where S: "sort_key ?k (filter ?A U) = x # xs"
    using sort_key_Cons_ex by blast
  have set: "set (filter ?A U) = set (x # xs)" using S set_sort [of ?k "filter ?A U"] by simp
  have srt: "sorted (map ?k (x # xs))" using S sorted_sort_key [of ?k "filter ?A U"] by simp
  have f: "filter ?A (rotation F U) = [x]"
    unfolding r demote_later_True fs S by simp
  have "x \<in> set (filter ?A U)" unfolding set by simp
  then have x: "x \<in> set U" "?A x" by simp_all
  have least: "\<forall>z \<in> set U. ?A z \<longrightarrow> price (snd x) \<le> price (snd z)"
  proof (intro ballI impI)
    fix z assume "z \<in> set U" "?A z"
    then have "z \<in> set (filter ?A U)" by simp
    then have "z \<in> set (x # xs)" unfolding set .
    from sorted_head_least [OF srt this] show "price (snd x) \<le> price (snd z)" .
  qed
  show ?thesis using f x least by blast
qed


lemma flagautobay_counts:
  assumes "\<forall>i < length a. fetch_order env i = PollFailed \<longrightarrow> \<not> is_autobay (a ! i)"
  shows "flagautobay (polled env a)
           = length (filter (\<lambda>x. is_autobay (snd x)) (updated_orders (polled env a)))"
proof -
  have "filter (\<lambda>x. still_open (fetch_order env (fst x))
                      \<and> fetch_order env (fst x) \<noteq> PollFailed \<and> is_autobay (snd x))
          (enumerate 0 a)
        = filter (\<lambda>x. still_open (fetch_order env (fst x)) \<and> is_autobay (snd x))
          (enumerate 0 a)"
  proof (rule filter_cong [OF refl])
    fix x assume "x \<in> set (enumerate 0 a)"
    then have "fst x < length a" "snd x = a ! fst x"
      by (auto simp add: in_set_enumerate_eq)
    then have "is_autobay (snd x) \<Longrightarrow> fetch_order env (fst x) \<noteq> PollFailed"
      using assms by auto
    then show "(still_open (fetch_order env (fst x))
                 \<and> fetch_order env (fst x) \<noteq> PollFailed \<and> is_autobay (snd x))
               = (still_open (fetch_order env (fst x)) \<and> is_autobay (snd x))"
      by blast
  qed
  then show ?thesis by (simp add: polled_eq)
qed

lemma filter_autobay_map_snd:
  "filter is_autobay (map snd L) = map snd (filter (\<lambda>x. is_autobay (snd x)) L)"
  by (simp add: filter_map comp_def)

text \<open>
  With the thread pool working, trading enabled, a non-empty still-open set and no
  replenishment due, the list \<^verbatim>\<open>check_orders\<close> returns is the still-open set
  after the rotation.
\<close>

lemma check_orders_returns_rotated:
  assumes "executor_ok env" and "\<not> trading_stopped w"
    and "survivors env a \<noteq> []"
    and "\<not> autobay_needed (polled env a) \<or> init"
  shows "fst (fst (check_orders env a n p init w)) = after_rotation env a"
proof -
  obtain c1 p1 w1 where s: "settle_closed (closed_orders (polled env a)) n p
      (if init then save_notification NCheckStarted w else w) = ((c1, p1), w1)"
    by (metis surj_pair)
  have t1: "\<not> trading_stopped w1"
    using settle_closed_quietD [OF s] assms(2) by (simp split: if_splits)
  have t2: "\<not> trading_stopped (notify_canceled (canceled_orders (polled env a)) w1)"
    using t1 notify_canceled_quiet by simp
  have u: "updated_orders (polled env a) \<noteq> []"
    using assms(3) by (simp add: survivors_def)
  show ?thesis
    using assms(1,4) s t2 u
    by (auto simp add: check_orders_def Let_def after_rotation_def)
qed

subsection \<open>The rotation of the \<^verbatim>\<open>'autobay'\<close> role\<close>

lemma sample_prices:
  "price order_b \<le> price order_a" "\<not> price order_a \<le> price order_b"
  "price order_a \<le> price order_c" "\<not> price order_c \<le> price order_a"
  "price order_b \<le> price order_c" "\<not> price order_c \<le> price order_b"
  "price order_b \<le> price order_s" "\<not> price order_s \<le> price order_b"
  by (simp_all add: order_a_def order_b_def order_c_def order_s_def field_simps)

lemma sample_roles:
  "is_autobay order_a" "\<not> is_autobay order_b" "is_autobay order_c" "\<not> is_autobay order_s"
  by (simp_all add: order_a_def order_b_def order_c_def order_s_def is_autobay_def)

lemma still_open_simps [simp]:
  "still_open (Status ''open'')" "still_open PollFailed"
  "\<not> still_open (Status ''closed'')" "\<not> still_open (Status ''canceled'')"
  by (simp_all add: still_open_def)

lemma rot_b_a:
  "survivors check_open [order_b, order_a] = [order_b, order_a]"
  "after_rotation check_open [order_b, order_a] = [order_b, order_a]"
  by (simp_all add: survivors_def after_rotation_def polled_eq check_open_simps
      sample_roles rotation_def)

lemma rot_b_a_c:
  "survivors check_open [order_c, order_b, order_a] = [order_c, order_b, order_a]"
  "after_rotation check_open [order_c, order_b, order_a]
     = [order_b, order_a, order_c\<lparr>order_type := ''bay''\<rparr>]"
  by (simp_all add: survivors_def after_rotation_def polled_eq check_open_simps
      sample_roles rotation_def sample_prices)

lemma rot_failed:
  "survivors check_second_failed [order_b, order_a] = [order_b, order_a]"
  "after_rotation check_second_failed [order_b, order_a]
     = [order_b\<lparr>order_type := ''autobay''\<rparr>, order_a]"
  by (simp_all add: survivors_def after_rotation_def polled_eq check_open_simps
      check_second_failed_def check_open_def
      sample_roles rotation_def sample_prices)

lemma rot_s_b:
  "survivors check_open [order_s, order_b] = [order_s, order_b]"
  "after_rotation check_open [order_s, order_b]
     = [order_b\<lparr>order_type := ''autobay''\<rparr>, order_s]"
  by (simp_all add: survivors_def after_rotation_def polled_eq check_open_simps
      sample_roles rotation_def sample_prices)


lemma second_failed: "fetch_order check_second_failed (Suc 0) = PollFailed"
  by (simp add: check_second_failed_def)

text \<open>
  C1, as stated, fails. With one open order carrying \<^verbatim>\<open>'autobay'\<close> the rotation
  changes nothing (neither branch of lines 369-382 applies), so the role stays with
  an order that is not the cheapest. With several the list is sorted and the first
  carrier keeps the role: the cheapest of the carriers, not of the whole set. And
  an order whose poll failed is not counted in \<^verbatim>\<open>flagautobay\<close>: if it carries the
  role and no polled order does, the cheapest order is promoted and two orders
  carry the role.
\<close>

theorem rotation_counterexample:
  "survivors check_open [order_b, order_a] = [order_b, order_a]
   \<and> filter is_autobay (after_rotation check_open [order_b, order_a]) = [order_a]
   \<and> order_b \<in> set (after_rotation check_open [order_b, order_a])
   \<and> price order_b < price order_a
   \<and> filter is_autobay (survivors check_open [order_c, order_b, order_a]) = [order_c, order_a]
   \<and> filter is_autobay (after_rotation check_open [order_c, order_b, order_a]) = [order_a]
   \<and> order_b \<in> set (after_rotation check_open [order_c, order_b, order_a])
   \<and> fetch_order check_second_failed 1 = PollFailed
   \<and> filter is_autobay (after_rotation check_second_failed [order_b, order_a])
       = [order_b\<lparr>order_type := ''autobay''\<rparr>, order_a]"
  using sample_prices(2)
  by (simp add: rot_b_a rot_b_a_c rot_failed sample_roles second_failed)

text \<open>
  C1, amended. When the still-open set is non-empty and no order whose poll failed
  carries \<^verbatim>\<open>'autobay'\<close>, exactly one order of the set carries \<^verbatim>\<open>'autobay'\<close> after
  the rotation. If no order carried the role before, it is an order of lowest price
  in the whole set, newly given the role; otherwise it is one of the orders that
  carried the role before, unchanged, and of lowest price among those (with exactly
  one carrier, that one, whatever its price).
\<close>

theorem rotation_single_autobay:
  assumes "survivors env active_orders \<noteq> []"
    and "\<forall>i < length active_orders.
           fetch_order env i = PollFailed \<longrightarrow> \<not> is_autobay (active_orders ! i)"
  shows "\<exists>a. filter is_autobay (after_rotation env active_orders) = [a]
           \<and> (if filter is_autobay (survivors env active_orders) = []
               then \<exists>b \<in> set (survivors env active_orders).
                      a = b\<lparr>order_type := ''autobay''\<rparr>
                      \<and> (\<forall>x \<in> set (survivors env active_orders). price b \<le> price x)
               else a \<in> set (survivors env active_orders) \<and> is_autobay a
                    \<and> (\<forall>x \<in> set (survivors env active_orders).
                           is_autobay x \<longrightarrow> price a \<le> price x))"
proof -
  let ?A = "\<lambda>x::tagged. is_autobay (snd x)"
  define U where "U = updated_orders (polled env active_orders)"
  define F where "F = flagautobay (polled env active_orders)"
  have F: "F = length (filter ?A U)"
    unfolding F_def U_def by (rule flagautobay_counts [OF assms(2)])
  have U: "U \<noteq> []" using assms(1) by (simp add: survivors_def U_def)
  have sv: "survivors env active_orders = map snd U" by (simp add: survivors_def U_def)
  have ar: "after_rotation env active_orders = map snd (rotation F U)"
    by (simp add: after_rotation_def U_def F_def)
  have fsv: "filter is_autobay (survivors env active_orders) = map snd (filter ?A U)"
    unfolding sv by (rule filter_autobay_map_snd)
  have far: "filter is_autobay (after_rotation env active_orders)
               = map snd (filter ?A (rotation F U))"
    unfolding ar by (rule filter_autobay_map_snd)
  consider (none) "F = 0" | (one) "F = 1" | (many) "F > 1" by linarith
  then show ?thesis
  proof cases
    case none
    then have e: "filter ?A U = []" using F by simp
    from rotation_none [OF U e] obtain y where y: "y \<in> set U"
      "filter ?A (rotation 0 U) = [(fst y, (snd y)\<lparr>order_type := ''autobay''\<rparr>)]"
      "\<forall>z \<in> set U. price (snd y) \<le> price (snd z)" by blast
    have 1: "filter is_autobay (after_rotation env active_orders)
               = [(snd y)\<lparr>order_type := ''autobay''\<rparr>]"
      unfolding far using y(2) none by simp
    have 2: "snd y \<in> set (survivors env active_orders)" unfolding sv using y(1) by simp
    have 3: "\<forall>x \<in> set (survivors env active_orders). price (snd y) \<le> price x"
      unfolding sv using y(3) by simp
    have 4: "filter is_autobay (survivors env active_orders) = []" unfolding fsv e by simp
    show ?thesis unfolding 4 using 1 2 3 by auto
  next
    case one
    then have l: "length (filter ?A U) = 1" using F by simp
    from rotation_one [OF l] obtain x where x: "x \<in> set U"
      "filter ?A (rotation 1 U) = [x]" "is_autobay (snd x)"
      "\<forall>z \<in> set U. is_autobay (snd z) \<longrightarrow> z = x" by blast
    have 1: "filter is_autobay (after_rotation env active_orders) = [snd x]"
      unfolding far using x(2) one by simp
    have 2: "snd x \<in> set (survivors env active_orders)" unfolding sv using x(1) by simp
    have 3: "\<forall>v \<in> set (survivors env active_orders). is_autobay v \<longrightarrow> price (snd x) \<le> price v"
      unfolding sv using x(4) by auto
    have 4: "filter is_autobay (survivors env active_orders) \<noteq> []"
      unfolding fsv using l by auto
    show ?thesis using 1 2 3 4 x(3) by auto
  next
    case many
    from rotation_many [OF F many] obtain x where x: "x \<in> set U"
      "filter ?A (rotation F U) = [x]" "is_autobay (snd x)"
      "\<forall>z \<in> set U. is_autobay (snd z) \<longrightarrow> price (snd x) \<le> price (snd z)" by blast
    have 1: "filter is_autobay (after_rotation env active_orders) = [snd x]"
      unfolding far using x(2) by simp
    have 2: "snd x \<in> set (survivors env active_orders)" unfolding sv using x(1) by simp
    have 3: "\<forall>v \<in> set (survivors env active_orders). is_autobay v \<longrightarrow> price (snd x) \<le> price v"
      unfolding sv using x(4) by auto
    have 4: "filter is_autobay (survivors env active_orders) \<noteq> []"
      unfolding fsv using F many by auto
    show ?thesis using 1 2 3 4 x(3) by auto
  qed
qed


theorem rotation_single_autobay_witness:
  "survivors check_open [order_s, order_b] \<noteq> []
   \<and> fetch_order check_open 0 \<noteq> PollFailed \<and> fetch_order check_open 1 \<noteq> PollFailed
   \<and> filter is_autobay (survivors check_open [order_s, order_b]) = []
   \<and> after_rotation check_open [order_s, order_b]
       = [order_b\<lparr>order_type := ''autobay''\<rparr>, order_s]
   \<and> (\<exists>a. filter is_autobay (after_rotation check_open [order_s, order_b]) = [a])"
proof -
  have 1: "survivors check_open [order_s, order_b] \<noteq> []" by (simp add: rot_s_b)
  have 2: "\<forall>i < length [order_s, order_b].
             fetch_order check_open i = PollFailed \<longrightarrow> \<not> is_autobay ([order_s, order_b] ! i)"
    by (simp add: check_open_simps)
  from rotation_single_autobay [OF 1 2]
  have "\<exists>a. filter is_autobay (after_rotation check_open [order_s, order_b]) = [a]"
    by blast
  then show ?thesis
    by (simp add: rot_s_b(1) sample_roles check_open_simps) (simp add: rot_s_b(2))
qed

subsection \<open>Counters and retained orders of a reconciliation pass\<close>

lemma settle_closed_counters:
  "fst (settle_closed cs n p w)
     = (n + int (length cs), p + sum_list (map (\<lambda>x. profit_of (snd x)) cs))"
  by (induction cs arbitrary: n p w) (simp_all add: Let_def profit_of_def algebra_simps)

lemma create_new_order_counters:
  "create_new_order ex a n p role w = (Return (orders1, count1, profit1), w')
   \<Longrightarrow> count1 = n \<and> profit1 = p"
  using create_new_order_appends by blast

lemma check_orders_counters:
  "snd (fst (check_orders env a n p init w))
     = (if executor_ok env
        then (n + int (length (closed_orders (polled env a))),
              p + sum_list (map (\<lambda>x. profit_of (snd x)) (closed_orders (polled env a))))
        else (n, p))"
proof (cases "executor_ok env")
  case False
  then show ?thesis by (simp add: check_orders_def Let_def)
next
  case True
  obtain c1 p1 w1 where s: "settle_closed (closed_orders (polled env a)) n p
      (if init then save_notification NCheckStarted w else w) = ((c1, p1), w1)"
    by (metis surj_pair)
  have c: "(c1, p1) = (n + int (length (closed_orders (polled env a))),
              p + sum_list (map (\<lambda>x. profit_of (snd x)) (closed_orders (polled env a))))"
    using settle_closed_counters [of "closed_orders (polled env a)" n p
        "if init then save_notification NCheckStarted w else w"] s by simp
  show ?thesis
    using True s c
    unfolding check_orders_def Let_def
    by (auto split: prod.splits result.splits dest!: create_new_order_counters)
qed

lemma closed_orders_positions:
  "closed_orders (polled env a) = map (\<lambda>i. (i, a ! i)) (closed_positions env a)"
proof -
  have e: "enumerate 0 a = map (\<lambda>i. (i, a ! i)) [0..<length a]"
    by (rule nth_equalityI) (simp_all add: nth_enumerate_eq)
  show ?thesis
    by (simp add: polled_eq closed_positions_def e filter_map comp_def)
qed


lemma ident_eq: "ident x = ident y \<longleftrightarrow> fst x = fst y \<and> same_order (snd x) (snd y)"
  by (auto simp add: ident_def same_order_def)

lemma ident_role [simp]: "ident (i, ord\<lparr>order_type := t\<rparr>) = ident (i, ord)"
  by (simp add: ident_def)

lemma demote_later_ident: "map ident (demote_later b xs) = map ident xs"
proof (induction xs arbitrary: b)
  case Nil
  show ?case by simp
next
  case (Cons x xs)
  have "ident (fst x, (snd x)\<lparr>order_type := ''bay''\<rparr>) = ident x"
    by (simp add: ident_def)
  then show ?case using Cons.IH by simp
qed

lemma rotation_ident: "set (map ident (rotation F U)) = set (map ident U)"
proof -
  let ?k = "\<lambda>x::tagged. price (snd x)"
  have s: "set (map ident (sort_key ?k U)) = set (map ident U)" by simp
  consider (none) "F = 0 \<and> U \<noteq> []" | (many) "\<not> (F = 0 \<and> U \<noteq> [])" "F > 1"
    | (same) "\<not> (F = 0 \<and> U \<noteq> [])" "\<not> F > 1" by blast
  then show ?thesis
  proof cases
    case none
    then obtain y ys where S: "sort_key ?k U = y # ys"
      using sort_key_Cons_ex by blast
    have "ident (fst y, (snd y)\<lparr>order_type := ''autobay''\<rparr>) = ident y"
      by (simp add: ident_def)
    then have "set (map ident (rotation F U)) = set (map ident (y # ys))"
      using none S by (simp add: rotation_def)
    then show ?thesis using s unfolding S by simp
  next
    case many
    then have "rotation F U = demote_later True (sort_key ?k U)"
      by (simp add: rotation_def)
    then show ?thesis using s by (simp only: demote_later_ident)
  next
    case same
    then have "rotation F U = U" by (auto simp add: rotation_def)
    then show ?thesis by simp
  qed
qed

lemma rotation_keeps:
  assumes "y \<in> set U"
  shows "\<exists>x \<in> set (rotation F U). fst x = fst y \<and> same_order (snd x) (snd y)"
proof -
  have "ident y \<in> set (map ident (rotation F U))"
    unfolding rotation_ident using assms by simp
  then obtain x where "x \<in> set (rotation F U)" "ident x = ident y" by auto
  then show ?thesis using ident_eq by blast
qed

lemma rotation_origin:
  assumes "x \<in> set (rotation F U)"
  shows "\<exists>y \<in> set U. fst x = fst y \<and> same_order (snd x) (snd y)"
proof -
  have "ident x \<in> set (map ident (rotation F U))" using assms by simp
  then have "ident x \<in> set (map ident U)" unfolding rotation_ident .
  then obtain y where "y \<in> set U" "ident x = ident y" by auto
  then show ?thesis using ident_eq by blast
qed

lemma updated_orders_positions:
  "y \<in> set (updated_orders (polled env a)) \<Longrightarrow> fst y < length a \<and> snd y = a ! fst y"
  by (auto simp add: polled_eq in_set_enumerate_eq)

lemma poll_failed_survives:
  assumes "i < length a" and "fetch_order env i = PollFailed"
  shows "(i, a ! i) \<in> set (updated_orders (polled env a))"
  using assms by (simp add: polled_eq in_set_enumerate_eq)

lemma written_back_nth:
  "i < length a \<Longrightarrow>
   written_back U a ! i = (case map_of U i of None \<Rightarrow> a ! i | Some ord \<Rightarrow> ord)"
  by (simp add: written_back_def nth_enumerate_eq)

lemma written_back_length [simp]: "length (written_back U a) = length a"
  by (simp add: written_back_def)


lemma create_new_order_extends:
  "create_new_order ex a n p role w = (Return (orders1, count1, profit1), w')
   \<Longrightarrow> orders1 = a \<or> (\<exists>x. orders1 = a @ [x])"
  using create_new_order_appends by blast

lemma check_orders_result:
  assumes "executor_ok env" and "updated_orders (polled env a) \<noteq> []"
  shows "\<exists>U'. (U' = rotation (flagautobay (polled env a)) (updated_orders (polled env a))
               \<or> U' = updated_orders (polled env a))
            \<and> (fst (fst (check_orders env a n p init w)) = map snd U'
                 \<or> (\<exists>x. fst (fst (check_orders env a n p init w)) = map snd U' @ [x])
                 \<or> fst (fst (check_orders env a n p init w)) = written_back U' a)"
proof -
  obtain c1 p1 w1 where s: "settle_closed (closed_orders (polled env a)) n p
      (if init then save_notification NCheckStarted w else w) = ((c1, p1), w1)"
    by (metis surj_pair)
  define w2 where "w2 = notify_canceled (canceled_orders (polled env a)) w1"
  define U' where "U' = (if \<not> trading_stopped w2
                          then rotation (flagautobay (polled env a)) (updated_orders (polled env a))
                          else updated_orders (polled env a))"
  define w3 where "w3 = save_state (map snd U') c1 p1 w2"
  have U': "U' = rotation (flagautobay (polled env a)) (updated_orders (polled env a))
               \<or> U' = updated_orders (polled env a)"
    by (simp add: U'_def)
  have C: "check_orders env a n p init w =
           (if autobay_needed (polled env a) \<and> \<not> init \<and> \<not> trading_stopped w3
            then case create_new_order (replenish env) (map snd U') c1 p1 ''autobay'' w3 of
                   (Return (orders2, count2, profit2), w4) \<Rightarrow>
                     ((orders2, count2, profit2), save_state orders2 count2 profit2 w4)
                 | (Raise e, w4) \<Rightarrow> ((written_back U' a, c1, p1), w4)
            else ((map snd U', c1, p1),
                  if init then save_notification NCheckFinished w3 else w3))"
    unfolding check_orders_def Let_def w3_def U'_def w2_def
    using assms s by simp
  obtain r w4 where c: "create_new_order (replenish env) (map snd U') c1 p1 ''autobay'' w3 = (r, w4)"
    by (metis surj_pair)
  have "fst (fst (check_orders env a n p init w)) = map snd U'
        \<or> (\<exists>x. fst (fst (check_orders env a n p init w)) = map snd U' @ [x])
        \<or> fst (fst (check_orders env a n p init w)) = written_back U' a"
  proof (cases "autobay_needed (polled env a) \<and> \<not> init \<and> \<not> trading_stopped w3")
    case False
    then show ?thesis unfolding C by auto
  next
    case True
    show ?thesis
    proof (cases r)
      case (Raise e)
      then show ?thesis unfolding C using True c by simp
    next
      case (Return b)
      obtain o2 c2 p2 where b: "b = (o2, c2, p2)" by (cases b)
      from create_new_order_extends [OF c [unfolded Return b]]
      show ?thesis unfolding C using True c Return b by auto
    qed
  qed
  then show ?thesis using U' by blast
qed


lemma same_order_refl [simp]: "same_order x x"
  by (simp add: same_order_def)

lemma kept_in_any_result:
  assumes "i < length a" and "fetch_order env i = PollFailed"
  shows "\<exists>ord \<in> set (fst (fst (check_orders env a n p init w))). same_order ord (a ! i)"
proof (cases "executor_ok env")
  case False
  then have "fst (fst (check_orders env a n p init w)) = a"
    by (simp add: check_orders_def Let_def)
  then show ?thesis using assms(1) by (metis nth_mem same_order_refl)
next
  case True
  let ?U = "updated_orders (polled env a)"
  let ?R = "fst (fst (check_orders env a n p init w))"
  have y: "(i, a ! i) \<in> set ?U" by (rule poll_failed_survives [OF assms])
  then have ne: "?U \<noteq> []" by auto
  from check_orders_result [OF True ne, of n p init w]
  obtain U' where U': "U' = rotation (flagautobay (polled env a)) ?U \<or> U' = ?U"
    and R: "?R = map snd U' \<or> (\<exists>x. ?R = map snd U' @ [x]) \<or> ?R = written_back U' a"
    by blast
  have keeps: "\<exists>x \<in> set U'. fst x = i \<and> same_order (snd x) (a ! i)"
  proof (cases "U' = ?U")
    case True
    then show ?thesis using y by force
  next
    case False
    then have "U' = rotation (flagautobay (polled env a)) ?U" using U' by simp
    then show ?thesis using rotation_keeps [OF y, of "flagautobay (polled env a)"] by simp
  qed
  have origin: "same_order (snd x) (a ! fst x)" if "x \<in> set U'" for x
  proof -
    have "\<exists>y' \<in> set ?U. fst x = fst y' \<and> same_order (snd x) (snd y')"
    proof (cases "U' = ?U")
      case True
      then show ?thesis using that by (metis same_order_refl)
    next
      case False
      then have "x \<in> set (rotation (flagautobay (polled env a)) ?U)" using U' that by simp
      then show ?thesis by (rule rotation_origin)
    qed
    then obtain y' where y': "y' \<in> set ?U" "fst x = fst y'" "same_order (snd x) (snd y')"
      by blast
    from updated_orders_positions [OF y'(1)] y'(2,3) show ?thesis by simp
  qed
  from R show ?thesis
  proof (elim disjE exE)
    assume "?R = map snd U'"
    then show ?thesis using keeps by force
  next
    fix x assume "?R = map snd U' @ [x]"
    then show ?thesis using keeps by force
  next
    assume wb: "?R = written_back U' a"
    have "same_order (written_back U' a ! i) (a ! i)"
    proof (cases "map_of U' i")
      case None
      then show ?thesis using assms(1) by (simp add: written_back_nth)
    next
      case (Some ord)
      then have "(i, ord) \<in> set U'" by (rule map_of_SomeD)
      from origin [OF this] Some show ?thesis using assms(1) by (simp add: written_back_nth)
    qed
    moreover have "written_back U' a ! i \<in> set (written_back U' a)"
      using assms(1) by simp
    ultimately show ?thesis unfolding wb by blast
  qed
qed

text \<open>
  C8. An order whose status poll fails is put, as it is, into the still-open set
  (line 321) and into neither the closed nor the canceled list; whichever way
  \<^verbatim>\<open>check_orders\<close> returns, the list it returns holds that order (same id, amount,
  price and buy price; the rotation that follows may rewrite its role), so the next
  iteration polls it again; and the counters move only by the orders at positions
  reported closed, of which it is none.
\<close>

theorem poll_failed_kept:
  assumes "i < length active_orders" and "fetch_order env i = PollFailed"
  shows "active_orders ! i \<in> set (survivors env active_orders)
         \<and> i \<notin> set (map fst (closed_orders (polled env active_orders)))
         \<and> i \<notin> set (map fst (canceled_orders (polled env active_orders)))
         \<and> (\<exists>ord \<in> set (fst (fst (check_orders env active_orders executed_orders_count
                                       total_profit initial_check w))).
                same_order ord (active_orders ! i))
         \<and> snd (fst (check_orders env active_orders executed_orders_count total_profit
                        initial_check w))
             = (if executor_ok env
                then (executed_orders_count + int (length (closed_positions env active_orders)),
                      total_profit
                      + sum_list (map (\<lambda>j. profit_of (active_orders ! j))
                                   (closed_positions env active_orders)))
                else (executed_orders_count, total_profit))"
proof -
  have 1: "active_orders ! i \<in> set (survivors env active_orders)"
    using poll_failed_survives [OF assms] unfolding survivors_def by force
  have 2: "i \<notin> set (map fst (closed_orders (polled env active_orders)))"
    using assms(2) by (auto simp add: polled_eq)
  have 3: "i \<notin> set (map fst (canceled_orders (polled env active_orders)))"
    using assms(2) by (auto simp add: polled_eq)
  have 5: "snd (fst (check_orders env active_orders executed_orders_count total_profit
                        initial_check w))
             = (if executor_ok env
                then (executed_orders_count + int (length (closed_positions env active_orders)),
                      total_profit
                      + sum_list (map (\<lambda>j. profit_of (active_orders ! j))
                                   (closed_positions env active_orders)))
                else (executed_orders_count, total_profit))"
    unfolding check_orders_counters closed_orders_positions by (simp add: comp_def)
  show ?thesis using 1 2 3 5 kept_in_any_result [OF assms] by blast
qed


theorem poll_failed_kept_witness:
  "(1::nat) < length [order_b, order_a]
   \<and> fetch_order check_second_failed 1 = PollFailed
   \<and> order_a \<in> set (survivors check_second_failed [order_b, order_a])
   \<and> (\<exists>ord. ord \<in> set (fst (fst (check_orders check_second_failed [order_b, order_a]
                                       0 0 False world0)))
              \<and> same_order ord order_a)
   \<and> snd (fst (check_orders check_second_failed [order_b, order_a] 0 0 False world0)) = (0, 0)"
proof -
  have 1: "(1::nat) < length [order_b, order_a]" by simp
  have 2: "fetch_order check_second_failed 1 = PollFailed"
    by (simp add: check_second_failed_def)
  have 3: "executor_ok check_second_failed"
    by (simp add: check_second_failed_def check_open_def)
  have 4: "closed_positions check_second_failed [order_b, order_a] = []"
    by (simp add: closed_positions_def check_second_failed_def)
  from poll_failed_kept [OF 1 2, of 0 0 False world0] 3 4
  show ?thesis using 1 2 by (simp add: Bex_def)
qed

subsection \<open>A replenishment that raises\<close>

lemma polled_canceled_a:
  "polled check_canceled_down [order_a] =
     \<lparr>updated_orders = [], closed_orders = [], canceled_orders = [(0, order_a)],
      autobay_needed = True, flagautobay = 0\<rparr>"
  by (simp add: polled_eq check_canceled_down_def sample_roles)

lemma polled_closed_a:
  "polled check_closed_down [order_a] =
     \<lparr>updated_orders = [], closed_orders = [(0, order_a)], canceled_orders = [],
      autobay_needed = True, flagautobay = 0\<rparr>"
  by (simp add: polled_eq check_closed_down_def sample_roles)

lemma create_new_order_down:
  "create_new_order exchange_down a n p role w
     = (Raise ExchangeError, w\<lparr>trace := trace w @ [CreateNewOrder role a]\<rparr>)"
  by (simp add: create_new_order_def exchange_down_def exchange_plenty_def)

lemma down_simps:
  "executor_ok check_canceled_down" "replenish check_canceled_down = exchange_down"
  "fetch_order check_canceled_down i = Status ''canceled''"
  "executor_ok check_closed_down" "replenish check_closed_down = exchange_down"
  "fetch_order check_closed_down i = Status ''closed''"
  by (simp_all add: check_canceled_down_def check_closed_down_def)

lemma profit_a: "price order_a * amount order_a - buy_price order_a * amount order_a = 0.07"
  by (simp add: order_a_def)

text \<open>
  C2. The counters are as stated on every path (lemma \<open>check_orders_counters\<close>):
  one more executed order and \<open>(price - buy_price) * amount\<close> more profit for each
  order reported closed, nothing for a canceled one. But when the replenishment
  that follows a closed or canceled \<^verbatim>\<open>'autobay'\<close> order raises (here
  \<^verbatim>\<open>load_markets\<close> fails), the handler of lines 397-399 returns the list the caller
  passed: the canceled order is notified yet still active, and a closed order is
  counted yet still active, so the next pass counts it again.
\<close>

theorem canceled_order_not_dropped:
  "fetch_order check_canceled_down 0 = Status ''canceled''
   \<and> check_orders check_canceled_down [order_a] 0 0 False world0
       = (([order_a], 0, 0),
          world0\<lparr>trace := [Notify (NOrderCanceled ''a''), CreateNewOrder ''autobay'' []]\<rparr>)
   \<and> fetch_order check_closed_down 0 = Status ''closed''
   \<and> fst (check_orders check_closed_down [order_a] 0 0 False world0) = ([order_a], 1, 0.07)
   \<and> fst (check_orders check_closed_down [order_a] 1 0.07 False
              (snd (check_orders check_closed_down [order_a] 0 0 False world0)))
       = ([order_a], 2, 0.14)"
  by (simp add: check_orders_def Let_def polled_canceled_a polled_closed_a down_simps
      create_new_order_down written_back_def world0_simps order_a_simps save_state_def
      save_notification_def profit_a current_state_def empty_object_def new_state_def
      rotation_def)

text \<open>
  On the path that returns normally the example of the specification holds: the
  order bought at 0.069 and sold at 0.06935, 217.39 units, once reported closed,
  leaves the active set, adds 1 to the count and
  \<open>0.06935 * 217.39 - 0.069 * 217.39\<close> to the profit.
\<close>

lemma closed_order_example:
  "check_orders check_closed [order_e] n p False world0
     = (([], n + 1, p + (0.06935 * 217.39 - 0.069 * 217.39)),
        save_state [] (n + 1) (p + (0.06935 * 217.39 - 0.069 * 217.39))
          (save_notification (NOrderExecuted order_e (0.06935 * 217.39 - 0.069 * 217.39))
             world0))"
proof -
  have p: "polled check_closed [order_e] =
     \<lparr>updated_orders = [], closed_orders = [(0, order_e)], canceled_orders = [],
      autobay_needed = False, flagautobay = 0\<rparr>"
    by (simp add: polled_eq check_closed_def order_e_def is_autobay_def)
  have e: "price order_e * amount order_e - buy_price order_e * amount order_e
             = 0.06935 * 217.39 - 0.069 * 217.39"
    by (simp add: order_e_def)
  have x: "executor_ok check_closed" by (simp add: check_closed_def check_open_def)
  show ?thesis
    by (simp add: check_orders_def Let_def p e x rotation_def world0_simps)
qed

subsection \<open>The price-drop trigger\<close>

text \<open>The doubles of the example, and the thresholds of line 451 for them.\<close>

lemma sample_doubles:
  "fl 0.07 = 1261007895663739 / 2 ^ 54"
  "fl 0.08 = 5764607523034235 / 2 ^ 56"
  "fl 0.0693 = 2496795633414203 / 2 ^ 55"
  "fl 0.0694 = 5000797026232199 / 2 ^ 56"
  "fl 0.0792 = 5706961447803893 / 2 ^ 56"
  by (simp_all add: fl_eval)

lemma one_minus_one_percent: "fl (1 - fl (1 / 100)) = 4458563631096791 / 2 ^ 52"
  using one_minus_drop_percent unfolding drop_percent_def .

lemma order_d_simps:
  "order_type order_d = ''autobay''" "buy_price order_d = fl 0.07"
  by (simp_all add: order_d_def)

lemma order_f_simps:
  "order_type order_f = ''autobay''" "buy_price order_f = fl 0.08"
  "is_autobay order_f"
  by (simp_all add: order_f_def is_autobay_def)

lemma threshold_d:
  "fl (buy_price order_d * fl (1 - fl (1 / 100))) = 2496795633414203 / 2 ^ 55"
proof -
  have h: "buy_price order_d * fl (1 - fl (1 / 100))
             = 1261007895663739 / 2 ^ 54 * (4458563631096791 / 2 ^ 52)"
    unfolding one_minus_one_percent order_d_simps(2) sample_doubles(1) by (rule refl)
  show ?thesis unfolding h by (simp add: fl_eval)
qed

lemma threshold_f:
  "fl (buy_price order_f * fl (1 - fl (1 / 100))) = 5706961447803893 / 2 ^ 56"
proof -
  have h: "buy_price order_f * fl (1 - fl (1 / 100))
             = 5764607523034235 / 2 ^ 56 * (4458563631096791 / 2 ^ 52)"
    unfolding one_minus_one_percent order_f_simps(2) sample_doubles(2) by (rule refl)
  show ?thesis unfolding h by (simp add: fl_eval)
qed

lemma first_autobay_split:
  "find is_autobay a = Some ord \<Longrightarrow>
   \<exists>pre post. a = pre @ ord # post \<and> (\<forall>x \<in> set pre. order_type x \<noteq> ''autobay'')
      \<and> order_type ord = ''autobay''
      \<and> demote_first a = pre @ ord\<lparr>order_type := ''bay''\<rparr> # post"
proof (induction a)
  case Nil
  then show ?case by simp
next
  case (Cons x xs)
  show ?case
  proof (cases "is_autobay x")
    case True
    then have "x = ord" using Cons.prems by simp
    then have "x # xs = [] @ ord # xs \<and> (\<forall>y \<in> set []. order_type y \<noteq> ''autobay'')
        \<and> order_type ord = ''autobay''
        \<and> demote_first (x # xs) = [] @ ord\<lparr>order_type := ''bay''\<rparr> # xs"
      using True by (simp add: is_autobay_def)
    then show ?thesis by blast
  next
    case False
    then have "find is_autobay xs = Some ord" using Cons.prems by simp
    from Cons.IH [OF this] obtain pre post where
      p: "xs = pre @ ord # post" "\<forall>y \<in> set pre. order_type y \<noteq> ''autobay''"
         "order_type ord = ''autobay''"
         "demote_first xs = pre @ ord\<lparr>order_type := ''bay''\<rparr> # post" by blast
    have "x # xs = (x # pre) @ ord # post \<and> (\<forall>y \<in> set (x # pre). order_type y \<noteq> ''autobay'')
        \<and> order_type ord = ''autobay''
        \<and> demote_first (x # xs) = (x # pre) @ ord\<lparr>order_type := ''bay''\<rparr> # post"
      using p False by (simp add: is_autobay_def)
    then show ?thesis by blast
  qed
qed

lemma first_autobay_find:
  "(\<forall>x \<in> set pre. order_type x \<noteq> ''autobay'') \<Longrightarrow> order_type ord = ''autobay''
   \<Longrightarrow> find is_autobay (pre @ ord # post) = Some ord"
  by (induction pre) (simp_all add: is_autobay_def)

lemma trigger_values:
  "fl 0.0693 \<le> fl (buy_price order_d * fl (1 - fl (1 / 100)))"
  "\<not> fl 0.0694 \<le> fl (buy_price order_d * fl (1 - fl (1 / 100)))"
  "fl 0.0792 \<le> fl (buy_price order_f * fl (1 - fl (1 / 100)))"
  unfolding threshold_d threshold_f sample_doubles
  by (simp_all add: field_simps)

lemma exact_threshold_f: "\<not> fl 0.0792 \<le> buy_price order_f * (1 - 1 / 100)"
  unfolding order_f_simps(2) sample_doubles
  by (simp add: field_simps)

lemma creations_world0: "creations (world0\<lparr>trace := t\<rparr>) = filter is_creation t"
  by (simp add: creations_def)

lemma book_split:
  assumes "[order_b, order_d, order_c] = pre @ ord # post"
    and "\<forall>x \<in> set pre. order_type x \<noteq> ''autobay''"
    and "order_type ord = ''autobay''"
  shows "pre = [order_b] \<and> ord = order_d \<and> post = [order_c]"
proof -
  have b: "order_type order_b \<noteq> ''autobay''" by (simp add: order_b_def)
  from assms(1) consider
      "pre = []" "ord = order_b"
    | "pre = [order_b]" "ord = order_d" "post = [order_c]"
    | "pre = [order_b, order_d]"
    by (auto simp add: Cons_eq_append_conv)
  then show ?thesis
  proof cases
    case 1
    then show ?thesis using assms(3) b by simp
  next
    case 2
    then show ?thesis by simp
  next
    case 3
    then show ?thesis using assms(2) order_d_simps(1) by simp
  qed
qed

lemma drop_env_plenty_simps:
  "drop_price (drop_env_plenty current_price) = Some current_price"
  "drop_balance (drop_env_plenty current_price) = Some 100"
  "drop_exchange (drop_env_plenty current_price) = exchange_plenty"
  by (simp_all add: drop_env_plenty_def drop_env_def)

lemma after_purchase:
  "disk (save_state (a @ [x]) 0 0
      ((save_notification m (world0\<lparr>trace := trace world0 @ [ev]\<rparr>))
         \<lparr>insufficient_funds_notified := False\<rparr>))
     = Object (new_state (a @ [x]) 0 0 False)"
  by (simp add: save_state_def save_notification_def world0_def current_state_def
      new_state_def empty_object_def Let_def)

text \<open>
  C3, as stated, fails when the threshold is read as the product of real numbers.
  With \<^verbatim>\<open>buy_price\<close> the double \<^verbatim>\<open>0.08\<close> and the price read the double \<^verbatim>\<open>0.0792\<close>,
  the price is above \<open>buy_price * (1 - 0.01)\<close>, and the step still sets the order to
  \<^verbatim>\<open>'bay'\<close>, enters \<^verbatim>\<open>create_new_order\<close> with role \<^verbatim>\<open>'autobay'\<close> and returns the
  book with the new order: line 451 compares against the rounded product, which is
  the double \<^verbatim>\<open>0.0792\<close> itself.
\<close>

theorem price_drop_trigger_counterexample:
  "buy_price order_f = fl 0.08
   \<and> \<not> fl 0.0792 \<le> buy_price order_f * (1 - 1 / 100)
   \<and> fst (price_drop (drop_env_plenty (fl 0.0792)) [order_f] 0 0 world0)
       = Return ([order_f\<lparr>order_type := ''bay''\<rparr>, order_s\<lparr>order_type := ''autobay''\<rparr>], 0, 0)
   \<and> creations (snd (price_drop (drop_env_plenty (fl 0.0792)) [order_f] 0 0 world0))
       = [CreateNewOrder ''autobay'' [order_f\<lparr>order_type := ''bay''\<rparr>]]"
proof -
  have "price_drop (drop_env_plenty (fl 0.0792)) [order_f] 0 0 world0 =
          (case create_new_order exchange_plenty [order_f\<lparr>order_type := ''bay''\<rparr>] 0 0
                  ''autobay'' world0 of
             (Raise e, w1) \<Rightarrow> (Raise e, w1)
           | (Return (orders1, count1, profit1), w1) \<Rightarrow>
               (Return (orders1, count1, profit1), save_state orders1 count1 profit1 w1))"
    using trigger_values(3)
    by (simp add: price_drop_def drop_env_plenty_simps order_f_simps(3) drop_percent_def
        world0_simps order_size_def)
  then show ?thesis
    using order_f_simps(2) exact_threshold_f
    by (simp add: create_new_order_plenty world0_simps creations_world0)
qed

text \<open>
  C3, amended. In an iteration whose price read (line 450) returns \<open>current_price\<close>,
  the price-drop step acts exactly when some order carries \<^verbatim>\<open>'autobay'\<close>, the price
  is at most the threshold as line 451 computes it in double precision, trading is
  enabled and the balance read (line 453) is at least the order size. The threshold
  is the rounded product of the \<^verbatim>\<open>buy_price\<close> of the first order in the list that
  carries \<^verbatim>\<open>'autobay'\<close> and the rounded difference of 1 and the double \<^verbatim>\<open>0.01\<close>.
  The step then sets that first order to \<^verbatim>\<open>'bay'\<close>, every other order staying as it
  is, enters \<^verbatim>\<open>create_new_order\<close> once, with role \<^verbatim>\<open>'autobay'\<close> and the resulting
  list, returns what the call returns and persists it (line 460), or raises what the
  call raises; a book that it returns is that list, or that list followed by one
  new order carrying \<^verbatim>\<open>'autobay'\<close>, with the counters unchanged. In every other case
  \<^verbatim>\<open>create_new_order\<close> is not entered, the state file is not written, and the step
  returns the book as it was, or raises because the balance read does.
\<close>

theorem price_drop_trigger:
  assumes "drop_price env = Some current_price"
  shows
  "if (\<exists>pre ord post.
          active_orders = pre @ ord # post
          \<and> (\<forall>x \<in> set pre. order_type x \<noteq> ''autobay'')
          \<and> order_type ord = ''autobay''
          \<and> current_price \<le> fl (buy_price ord * fl (1 - fl (1 / 100))))
      \<and> \<not> trading_stopped w
      \<and> (\<exists>available_balance.
             drop_balance env = Some available_balance \<and> order_size \<le> available_balance)
   then \<exists>pre ord post.
          active_orders = pre @ ord # post
          \<and> (\<forall>x \<in> set pre. order_type x \<noteq> ''autobay'')
          \<and> order_type ord = ''autobay''
          \<and> price_drop env active_orders executed_orders_count total_profit w =
              (case create_new_order (drop_exchange env)
                      (pre @ ord\<lparr>order_type := ''bay''\<rparr> # post)
                      executed_orders_count total_profit ''autobay'' w of
                 (Raise e, w1) \<Rightarrow> (Raise e, w1)
               | (Return (orders1, count1, profit1), w1) \<Rightarrow>
                   (Return (orders1, count1, profit1), save_state orders1 count1 profit1 w1))
          \<and> creations (snd (price_drop env active_orders executed_orders_count total_profit w))
              = creations w
                @ [CreateNewOrder ''autobay'' (pre @ ord\<lparr>order_type := ''bay''\<rparr> # post)]
          \<and> (\<forall>orders1 count1 profit1.
                fst (price_drop env active_orders executed_orders_count total_profit w)
                  = Return (orders1, count1, profit1)
                \<longrightarrow> count1 = executed_orders_count \<and> profit1 = total_profit
                    \<and> (orders1 = pre @ ord\<lparr>order_type := ''bay''\<rparr> # post
                       \<or> (\<exists>new_order.
                             orders1 = (pre @ ord\<lparr>order_type := ''bay''\<rparr> # post) @ [new_order]
                             \<and> order_type new_order = ''autobay'')))
   else creations (snd (price_drop env active_orders executed_orders_count total_profit w))
          = creations w
        \<and> disk (snd (price_drop env active_orders executed_orders_count total_profit w))
            = disk w
        \<and> (fst (price_drop env active_orders executed_orders_count total_profit w)
               = Return (active_orders, executed_orders_count, total_profit)
             \<or> fst (price_drop env active_orders executed_orders_count total_profit w)
               = Raise ExchangeError)"
proof -
  let ?thr = "\<lambda>ord. fl (buy_price ord * fl (1 - fl (1 / 100)))"
  let ?P = "price_drop env active_orders executed_orders_count total_profit w"
  let ?claim = "(\<exists>pre ord post.
          active_orders = pre @ ord # post
          \<and> (\<forall>x \<in> set pre. order_type x \<noteq> ''autobay'')
          \<and> order_type ord = ''autobay''
          \<and> current_price \<le> ?thr ord)
      \<and> \<not> trading_stopped w
      \<and> (\<exists>available_balance.
             drop_balance env = Some available_balance \<and> order_size \<le> available_balance)"
  let ?model = "(\<exists>ord. find is_autobay active_orders = Some ord \<and> current_price \<le> ?thr ord)
      \<and> \<not> trading_stopped w
      \<and> (\<exists>available_balance.
             drop_balance env = Some available_balance \<and> order_size \<le> available_balance)"
  have eq: "?claim \<longleftrightarrow> ?model"
  proof -
    have "(\<exists>pre ord post.
          active_orders = pre @ ord # post
          \<and> (\<forall>x \<in> set pre. order_type x \<noteq> ''autobay'')
          \<and> order_type ord = ''autobay''
          \<and> current_price \<le> ?thr ord)
      \<longleftrightarrow> (\<exists>ord. find is_autobay active_orders = Some ord \<and> current_price \<le> ?thr ord)"
    proof
      assume "\<exists>pre ord post.
          active_orders = pre @ ord # post
          \<and> (\<forall>x \<in> set pre. order_type x \<noteq> ''autobay'')
          \<and> order_type ord = ''autobay''
          \<and> current_price \<le> ?thr ord"
      then obtain pre ord post where d: "active_orders = pre @ ord # post"
        "\<forall>x \<in> set pre. order_type x \<noteq> ''autobay''" "order_type ord = ''autobay''"
        "current_price \<le> ?thr ord" by blast
      have "find is_autobay active_orders = Some ord"
        unfolding d(1) by (rule first_autobay_find [OF d(2,3)])
      then show "\<exists>ord. find is_autobay active_orders = Some ord \<and> current_price \<le> ?thr ord"
        using d(4) by blast
    next
      assume "\<exists>ord. find is_autobay active_orders = Some ord \<and> current_price \<le> ?thr ord"
      then obtain ord where f: "find is_autobay active_orders = Some ord"
        "current_price \<le> ?thr ord" by blast
      from first_autobay_split [OF f(1)] f(2)
      show "\<exists>pre ord post.
          active_orders = pre @ ord # post
          \<and> (\<forall>x \<in> set pre. order_type x \<noteq> ''autobay'')
          \<and> order_type ord = ''autobay''
          \<and> current_price \<le> ?thr ord" by blast
    qed
    then show ?thesis by simp
  qed
  show ?thesis
  proof (cases ?model)
    case True
    then obtain ord available_balance where m:
      "find is_autobay active_orders = Some ord" "current_price \<le> ?thr ord"
      "\<not> trading_stopped w" "drop_balance env = Some available_balance"
      "order_size \<le> available_balance" by blast
    from first_autobay_split [OF m(1)] obtain pre post where d:
      "active_orders = pre @ ord # post" "\<forall>x \<in> set pre. order_type x \<noteq> ''autobay''"
      "order_type ord = ''autobay''"
      "demote_first active_orders = pre @ ord\<lparr>order_type := ''bay''\<rparr> # post" by blast
    let ?d = "pre @ ord\<lparr>order_type := ''bay''\<rparr> # post"
    let ?C = "create_new_order (drop_exchange env) ?d executed_orders_count total_profit
                ''autobay'' w"
    have P: "?P = (case ?C of
                 (Raise e, w1) \<Rightarrow> (Raise e, w1)
               | (Return (orders1, count1, profit1), w1) \<Rightarrow>
                   (Return (orders1, count1, profit1), save_state orders1 count1 profit1 w1))"
      using assms m d(4) by (simp add: price_drop_def drop_percent_def)
    obtain r w1 where C: "?C = (r, w1)" by (cases ?C)
    have cr: "creations (snd ?P) = creations w @ [CreateNewOrder ''autobay'' ?d]"
      unfolding P C using creations_create_new_order [OF C]
      by (cases r) (auto split: prod.splits)
    have ret: "count1 = executed_orders_count \<and> profit1 = total_profit
                    \<and> (orders1 = ?d
                       \<or> (\<exists>new_order. orders1 = ?d @ [new_order]
                             \<and> order_type new_order = ''autobay''))"
      if "fst ?P = Return (orders1, count1, profit1)" for orders1 count1 profit1
    proof -
      have "r = Return (orders1, count1, profit1)"
        using that unfolding P C by (cases r) (auto split: prod.splits)
      from create_new_order_appends [OF C [unfolded this]] show ?thesis by auto
    qed
    have "active_orders = pre @ ord # post
          \<and> (\<forall>x \<in> set pre. order_type x \<noteq> ''autobay'')
          \<and> order_type ord = ''autobay''
          \<and> ?P = (case ?C of
                 (Raise e, w1) \<Rightarrow> (Raise e, w1)
               | (Return (orders1, count1, profit1), w1) \<Rightarrow>
                   (Return (orders1, count1, profit1), save_state orders1 count1 profit1 w1))
          \<and> creations (snd ?P) = creations w @ [CreateNewOrder ''autobay'' ?d]
          \<and> (\<forall>orders1 count1 profit1.
                fst ?P = Return (orders1, count1, profit1)
                \<longrightarrow> count1 = executed_orders_count \<and> profit1 = total_profit
                    \<and> (orders1 = ?d
                       \<or> (\<exists>new_order. orders1 = ?d @ [new_order]
                             \<and> order_type new_order = ''autobay'')))"
      using d(1,2,3) P cr ret by blast
    then have "\<exists>pre ord post. active_orders = pre @ ord # post
          \<and> (\<forall>x \<in> set pre. order_type x \<noteq> ''autobay'')
          \<and> order_type ord = ''autobay''
          \<and> ?P = (case create_new_order (drop_exchange env)
                      (pre @ ord\<lparr>order_type := ''bay''\<rparr> # post)
                      executed_orders_count total_profit ''autobay'' w of
                 (Raise e, w1) \<Rightarrow> (Raise e, w1)
               | (Return (orders1, count1, profit1), w1) \<Rightarrow>
                   (Return (orders1, count1, profit1), save_state orders1 count1 profit1 w1))
          \<and> creations (snd ?P) = creations w
                @ [CreateNewOrder ''autobay'' (pre @ ord\<lparr>order_type := ''bay''\<rparr> # post)]
          \<and> (\<forall>orders1 count1 profit1.
                fst ?P = Return (orders1, count1, profit1)
                \<longrightarrow> count1 = executed_orders_count \<and> profit1 = total_profit
                    \<and> (orders1 = pre @ ord\<lparr>order_type := ''bay''\<rparr> # post
                       \<or> (\<exists>new_order.
                             orders1 = (pre @ ord\<lparr>order_type := ''bay''\<rparr> # post) @ [new_order]
                             \<and> order_type new_order = ''autobay'')))"
      by (intro exI)
    then show ?thesis using True eq by simp
  next
    case False
    have "creations (snd ?P) = creations w \<and> disk (snd ?P) = disk w
        \<and> (fst ?P = Return (active_orders, executed_orders_count, total_profit)
             \<or> fst ?P = Raise ExchangeError)"
      using assms False
      by (auto simp add: price_drop_def drop_percent_def save_notification_def creations_def
          split: option.splits)
    then show ?thesis using False eq by simp
  qed
qed

text \<open>
  On the book of a \<^verbatim>\<open>'bay'\<close> order followed by two orders that carry \<^verbatim>\<open>'autobay'\<close>,
  the first of them bought at the double \<^verbatim>\<open>0.07\<close>: at the double \<^verbatim>\<open>0.0693\<close> the
  trigger fires, that order is set to \<^verbatim>\<open>'bay'\<close>, the new order is appended and the
  book is persisted; at the double \<^verbatim>\<open>0.0694\<close> nothing happens.
\<close>

theorem price_drop_trigger_witness:
  "drop_price (drop_env_plenty (fl 0.0693)) = Some (fl 0.0693)
   \<and> order_type order_b = ''bay'' \<and> order_type order_d = ''autobay''
   \<and> order_type order_c = ''autobay'' \<and> buy_price order_d = fl 0.07
   \<and> fl 0.0693 \<le> fl (buy_price order_d * fl (1 - fl (1 / 100)))
   \<and> \<not> trading_stopped world0
   \<and> drop_balance (drop_env_plenty (fl 0.0693)) = Some 100 \<and> order_size \<le> 100
   \<and> fst (price_drop (drop_env_plenty (fl 0.0693)) [order_b, order_d, order_c] 0 0 world0)
       = Return ([order_b, order_d\<lparr>order_type := ''bay''\<rparr>, order_c,
                  order_s\<lparr>order_type := ''autobay''\<rparr>], 0, 0)
   \<and> creations (snd (price_drop (drop_env_plenty (fl 0.0693)) [order_b, order_d, order_c]
          0 0 world0))
       = [CreateNewOrder ''autobay'' [order_b, order_d\<lparr>order_type := ''bay''\<rparr>, order_c]]
   \<and> disk (snd (price_drop (drop_env_plenty (fl 0.0693)) [order_b, order_d, order_c]
          0 0 world0))
       = Object (new_state [order_b, order_d\<lparr>order_type := ''bay''\<rparr>, order_c,
                            order_s\<lparr>order_type := ''autobay''\<rparr>] 0 0 False)
   \<and> drop_price (drop_env_plenty (fl 0.0694)) = Some (fl 0.0694)
   \<and> \<not> fl 0.0694 \<le> fl (buy_price order_d * fl (1 - fl (1 / 100)))
   \<and> price_drop (drop_env_plenty (fl 0.0694)) [order_b, order_d, order_c] 0 0 world0
       = (Return ([order_b, order_d, order_c], 0, 0), world0)"
proof -
  let ?book = "[order_b, order_d, order_c]"
  let ?fired = "price_drop (drop_env_plenty (fl 0.0693)) ?book 0 0 world0"
  let ?quiet = "price_drop (drop_env_plenty (fl 0.0694)) ?book 0 0 world0"
  have roles: "order_type order_b = ''bay''" "order_type order_c = ''autobay''"
    by (simp_all add: order_b_def order_c_def)
  have funds: "order_size \<le> 100" by (simp add: order_size_def)
  have "?book = [order_b] @ order_d # [order_c]
        \<and> (\<forall>x \<in> set [order_b]. order_type x \<noteq> ''autobay'')
        \<and> order_type order_d = ''autobay''
        \<and> fl 0.0693 \<le> fl (buy_price order_d * fl (1 - fl (1 / 100)))"
    using roles(1) order_d_simps(1) trigger_values(1) by simp
  then have "\<exists>pre ord post. ?book = pre @ ord # post
        \<and> (\<forall>x \<in> set pre. order_type x \<noteq> ''autobay'')
        \<and> order_type ord = ''autobay''
        \<and> fl 0.0693 \<le> fl (buy_price ord * fl (1 - fl (1 / 100)))"
    by (intro exI)
  then have fires: "(\<exists>pre ord post. ?book = pre @ ord # post
        \<and> (\<forall>x \<in> set pre. order_type x \<noteq> ''autobay'')
        \<and> order_type ord = ''autobay''
        \<and> fl 0.0693 \<le> fl (buy_price ord * fl (1 - fl (1 / 100))))
      \<and> \<not> trading_stopped world0
      \<and> (\<exists>available_balance.
             drop_balance (drop_env_plenty (fl 0.0693)) = Some available_balance
             \<and> order_size \<le> available_balance)"
    using world0_simps(2) funds by (simp add: drop_env_plenty_simps)
  from price_drop_trigger [where env = "drop_env_plenty (fl 0.0693)" and current_price = "fl 0.0693"
      and active_orders = ?book and executed_orders_count = 0 and total_profit = 0
      and w = world0, OF drop_env_plenty_simps(1)]
  obtain pre ord post where split: "?book = pre @ ord # post"
      "\<forall>x \<in> set pre. order_type x \<noteq> ''autobay''" "order_type ord = ''autobay''"
    and run: "?fired =
       (case create_new_order (drop_exchange (drop_env_plenty (fl 0.0693)))
               (pre @ ord\<lparr>order_type := ''bay''\<rparr> # post) 0 0 ''autobay'' world0 of
          (Raise e, w1) \<Rightarrow> (Raise e, w1)
        | (Return (orders1, count1, profit1), w1) \<Rightarrow>
            (Return (orders1, count1, profit1), save_state orders1 count1 profit1 w1))"
    and entry: "creations (snd ?fired) = creations world0
         @ [CreateNewOrder ''autobay'' (pre @ ord\<lparr>order_type := ''bay''\<rparr> # post)]"
    unfolding if_P [OF fires] by blast
  from book_split [OF split] have which:
    "pre = [order_b]" "ord = order_d" "post = [order_c]" by simp_all
  have fired: "fst ?fired = Return ([order_b, order_d\<lparr>order_type := ''bay''\<rparr>, order_c,
                  order_s\<lparr>order_type := ''autobay''\<rparr>], 0, 0)"
    "disk (snd ?fired) = Object (new_state [order_b, order_d\<lparr>order_type := ''bay''\<rparr>,
                  order_c, order_s\<lparr>order_type := ''autobay''\<rparr>] 0 0 False)"
    unfolding run which drop_env_plenty_simps create_new_order_plenty
    using after_purchase [of "[order_b, order_d\<lparr>order_type := ''bay''\<rparr>, order_c]"]
    by simp_all
  have entered: "creations (snd ?fired)
      = [CreateNewOrder ''autobay'' [order_b, order_d\<lparr>order_type := ''bay''\<rparr>, order_c]]"
    unfolding entry which by (simp add: creations_def world0_simps)
  have "\<not> (\<exists>pre ord post. ?book = pre @ ord # post
        \<and> (\<forall>x \<in> set pre. order_type x \<noteq> ''autobay'')
        \<and> order_type ord = ''autobay''
        \<and> fl 0.0694 \<le> fl (buy_price ord * fl (1 - fl (1 / 100))))"
    using book_split trigger_values(2) by blast
  then have quiet: "\<not> ((\<exists>pre ord post. ?book = pre @ ord # post
        \<and> (\<forall>x \<in> set pre. order_type x \<noteq> ''autobay'')
        \<and> order_type ord = ''autobay''
        \<and> fl 0.0694 \<le> fl (buy_price ord * fl (1 - fl (1 / 100))))
      \<and> \<not> trading_stopped world0
      \<and> (\<exists>available_balance.
             drop_balance (drop_env_plenty (fl 0.0694)) = Some available_balance
             \<and> order_size \<le> available_balance))"
    by blast
  from price_drop_trigger [where env = "drop_env_plenty (fl 0.0694)" and current_price = "fl 0.0694"
      and active_orders = ?book and executed_orders_count = 0 and total_profit = 0
      and w = world0, OF drop_env_plenty_simps(1)]
  have rest: "creations (snd ?quiet) = creations world0" "disk (snd ?quiet) = disk world0"
    "fst ?quiet = Return (?book, 0, 0) \<or> fst ?quiet = Raise ExchangeError"
    unfolding if_not_P [OF quiet] by blast+
  have unchanged: "?quiet = (Return (?book, 0, 0), world0)"
    using trigger_values(2)
    by (simp add: price_drop_def drop_env_plenty_simps roles(1) is_autobay_def
        order_d_simps(1) drop_percent_def)
  show ?thesis
    using drop_env_plenty_simps(1,2) roles order_d_simps trigger_values(1,2) world0_simps(2)
      funds fired entered rest(1,2) unchanged
    by simp
qed

end
